theory Spec2Isabelle
  imports Main
begin

section \<open>Python string helpers used by streamlit\_app.py\<close>

text \<open>
  Strings are lists of characters; the model covers the code points below 256.
  \<open>isspace\<close> is Python's \<open>str.isspace\<close> on those code points: tab, line feed,
  vertical tab, form feed, carriage return, the four separators 28..31, space,
  NEL (133) and the no-break space (160).
\<close>

definition isspace :: "char \<Rightarrow> bool" where
  "isspace c = (of_char c \<in> set [9, 10, 11, 12, 13, 28, 29, 30, 31, 32, 133, 160 :: nat])"

definition lstrip :: "string \<Rightarrow> string" where
  "lstrip s = dropWhile isspace s"

definition rstrip :: "string \<Rightarrow> string" where
  "rstrip s = rev (dropWhile isspace (rev s))"

text \<open>\<open>s.strip()\<close>\<close>

definition strip :: "string \<Rightarrow> string" where
  "strip s = rstrip (lstrip s)"

text \<open>\<open>s.split(sep)\<close> for a one-character separator: never the empty list.\<close>

fun str_split :: "char \<Rightarrow> string \<Rightarrow> string list" where
  "str_split sep [] = [[]]"
| "str_split sep (c # cs) =
     (if c = sep then [] # str_split sep cs
      else (case str_split sep cs of
              [] \<Rightarrow> [[c]]
            | seg # segs \<Rightarrow> (c # seg) # segs))"

text \<open>\<open>s.find(c)\<close>: the index of the first occurrence, or -1.\<close>

fun str_find :: "char \<Rightarrow> string \<Rightarrow> int" where
  "str_find c [] = - 1"
| "str_find c (x # xs) =
     (if x = c then 0
      else (let i = str_find c xs in if i < 0 then - 1 else i + 1))"

section \<open>Run state\<close>

text \<open>
  \<open>AutomationState\<close> (lines 178-183) and \<open>LockState\<close> (lines 620-623) share the
  fields \<open>running\<close> and \<open>logs\<close>; \<open>AutomationState\<close> adds the two counters.
\<close>

record LockState =
  running :: bool
  logs :: "string list"

record AutomationState = LockState +
  message_count :: int
  message_rotation_index :: int

text \<open>\<open>AutomationState.__init__\<close>\<close>

definition AutomationState_init :: AutomationState where
  "AutomationState_init =
     \<lparr>running = False, logs = [], message_count = 0, message_rotation_index = 0\<rparr>"

text \<open>\<open>LockState.__init__\<close>\<close>

definition LockState_init :: LockState where
  "LockState_init = \<lparr>running = False, logs = []\<rparr>"

section \<open>Message rotation\<close>

text \<open>
  \<open>get_next_message\<close> (lines 312-320). The state argument is optional in the source
  (\<open>automation_state=None\<close>); a state object is always truthy. The index is a Python
  integer; \<open>%\<close> with a positive modulus is never negative, so the list read is in range.
  The function returns the message together with the state it leaves behind.
\<close>

definition get_next_message ::
  "string list \<Rightarrow> AutomationState option \<Rightarrow> string \<times> AutomationState option" where
  "get_next_message messages automation_state =
     (if messages = [] then (''Hello!'', automation_state)
      else (case automation_state of
              Some st \<Rightarrow>
                (messages ! nat (message_rotation_index st mod int (length messages)),
                 Some (st\<lparr>message_rotation_index := message_rotation_index st + 1\<rparr>))
            | None \<Rightarrow> (messages ! 0, None)))"

text \<open>The messages returned by \<open>n\<close> successive calls on the same state object.\<close>

fun successive_messages :: "nat \<Rightarrow> string list \<Rightarrow> AutomationState option \<Rightarrow> string list" where
  "successive_messages 0 messages automation_state = []"
| "successive_messages (Suc n) messages automation_state =
     (case get_next_message messages automation_state of
        (message, automation_state') \<Rightarrow>
          message # successive_messages n messages automation_state')"

section \<open>The browser, the clock and the account store\<close>

text \<open>
  What a script run by \<open>driver.execute_script\<close> hands back to Python: \<open>null\<close> or
  \<open>undefined\<close> (Python's \<open>None\<close>), a boolean or a string.
\<close>

datatype jsval = JNull | JBool bool | JStr string

text \<open>Python's truth value of such a result, and its rendering inside an f-string.\<close>

fun truthy :: "jsval \<Rightarrow> bool" where
  "truthy JNull = False"
| "truthy (JBool b) = b"
| "truthy (JStr s) = (s \<noteq> [])"

fun py_str :: "jsval \<Rightarrow> string" where
  "py_str JNull = ''None''"
| "py_str (JBool b) = (if b then ''True'' else ''False'')"
| "py_str (JStr s) = s"

type_synonym element = nat

text \<open>The JavaScript snippets of the source, one constructor for each.\<close>

datatype script =
    Scroll_bottom | Scroll_top | Is_editable | Element_text
  | Inject_message | Click_send | Press_enter
  | Read_group_name
  | Click_info | Click_edit | Set_name_input | Click_save | Click_close

text \<open>
  Every interaction of the code with the outside: reading the clock, sleeping, reading the
  shared running flag at a loop head, and the commands sent to the browser. Sleeps are
  in milliseconds.
\<close>

datatype call =
    Strftime | Sleep nat | Check_running
  | Chrome | Set_window_size | Get string | Add_cookie string string | Quit
  | Title | Current_url | Page_source
  | Find_elements string | Is_displayed element | Size element | Click element
  | Execute_script script "element option" "string list"

text \<open>
  The outside world answers each call as a function of the whole history of calls made
  so far, the call being answered last. A raised exception is its message (\<open>Inl\<close>, or
  \<open>Some\<close> for a call without result). \<open>stop_requested\<close> says whether another thread
  has cleared the running flag by the time of a \<open>Check_running\<close>.
\<close>

record env =
  strftime :: "call list \<Rightarrow> string"
  stop_requested :: "call list \<Rightarrow> bool"
  void_result :: "call list \<Rightarrow> string option"
  script_result :: "call list \<Rightarrow> string + jsval"
  text_result :: "call list \<Rightarrow> string + string"
  elements_result :: "call list \<Rightarrow> string + element list"
  displayed_result :: "call list \<Rightarrow> string + bool"
  size_result :: "call list \<Rightarrow> string + int \<times> int"

text \<open>
  What a background loop changes besides its state object: the history of calls and the
  \<open>lock_enabled\<close> column of the \<open>users\<close> table, keyed by user name.
\<close>

record world =
  calls :: "call list"
  lock_enabled :: "string \<rightharpoonup> bool"

text \<open>\<open>get_lock_enabled\<close> (lines 82-87) and \<open>set_lock_enabled\<close> (lines 90-94) on the
  column: an \<open>UPDATE\<close> changes nothing when the user has no row.\<close>

definition get_lock_enabled :: "(string \<rightharpoonup> bool) \<Rightarrow> string \<Rightarrow> bool" where
  "get_lock_enabled users username =
     (case users username of Some b \<Rightarrow> b | None \<Rightarrow> False)"

definition set_lock_enabled :: "(string \<rightharpoonup> bool) \<Rightarrow> string \<Rightarrow> bool \<Rightarrow> (string \<rightharpoonup> bool)" where
  "set_lock_enabled users username val =
     (if username \<in> dom users then users(username \<mapsto> val) else users)"

text \<open>\<open>set_lock_enabled\<close> called from a background loop.\<close>

definition store_lock_enabled :: "string \<Rightarrow> bool \<Rightarrow> 'st \<times> world \<Rightarrow> 'st \<times> world" where
  "store_lock_enabled username val s =
     (fst s, (snd s)\<lparr>lock_enabled := set_lock_enabled (lock_enabled (snd s)) username val\<rparr>)"

text \<open>\<open>set_automation_running\<close> (lines 127-129) is \<open>pass\<close>.\<close>

definition set_automation_running :: "string \<Rightarrow> bool \<Rightarrow> 'st \<times> world \<Rightarrow> 'st \<times> world" where
  "set_automation_running username val s = s"

definition history :: "'st \<times> world \<Rightarrow> call list" where
  "history s = calls (snd s)"

definition record_call :: "call \<Rightarrow> 'st \<times> world \<Rightarrow> 'st \<times> world" where
  "record_call c s = (fst s, (snd s)\<lparr>calls := calls (snd s) @ [c]\<rparr>)"

text \<open>\<open>time.sleep\<close> with a non-negative constant.\<close>

definition sleep :: "nat \<Rightarrow> 'st \<times> world \<Rightarrow> 'st \<times> world" where
  "sleep ms s = record_call (Sleep ms) s"

definition void_call :: "env \<Rightarrow> call \<Rightarrow> 'st \<times> world \<Rightarrow> (string + unit) \<times> ('st \<times> world)" where
  "void_call e c s =
     (let s' = record_call c s
      in (case void_result e (history s') of Some err \<Rightarrow> Inl err | None \<Rightarrow> Inr (), s'))"

definition execute_script ::
  "env \<Rightarrow> script \<Rightarrow> element option \<Rightarrow> string list \<Rightarrow> 'st \<times> world
     \<Rightarrow> (string + jsval) \<times> ('st \<times> world)" where
  "execute_script e js element args s =
     (let s' = record_call (Execute_script js element args) s
      in (script_result e (history s'), s'))"

definition text_call :: "env \<Rightarrow> call \<Rightarrow> 'st \<times> world \<Rightarrow> (string + string) \<times> ('st \<times> world)" where
  "text_call e c s = (let s' = record_call c s in (text_result e (history s'), s'))"

definition find_elements ::
  "env \<Rightarrow> string \<Rightarrow> 'st \<times> world \<Rightarrow> (string + element list) \<times> ('st \<times> world)" where
  "find_elements e selector s =
     (let s' = record_call (Find_elements selector) s in (elements_result e (history s'), s'))"

definition is_displayed :: "env \<Rightarrow> element \<Rightarrow> 'st \<times> world \<Rightarrow> (string + bool) \<times> ('st \<times> world)" where
  "is_displayed e element s =
     (let s' = record_call (Is_displayed element) s in (displayed_result e (history s'), s'))"

definition element_size ::
  "env \<Rightarrow> element \<Rightarrow> 'st \<times> world \<Rightarrow> (string + int \<times> int) \<times> ('st \<times> world)" where
  "element_size e element s =
     (let s' = record_call (Size element) s in (size_result e (history s'), s'))"

text \<open>Sequencing inside a \<open>try\<close> block: the first exception ends the block.\<close>

definition and_then ::
  "(string + 'a) \<times> 's \<Rightarrow> ('a \<Rightarrow> 's \<Rightarrow> (string + 'b) \<times> 's) \<Rightarrow> (string + 'b) \<times> 's" where
  "and_then r f = (case r of (Inl err, s) \<Rightarrow> (Inl err, s) | (Inr a, s) \<Rightarrow> f a s)"

section \<open>Logging\<close>

text \<open>
  \<open>log_message\<close> (lines 194-200) with a state object: the entry is the time of day in
  brackets, a space and the message, appended to the object's \<open>logs\<close>. Every caller
  modelled here passes its state object, so the branch for \<open>st.session_state.logs\<close> is not
  reached from them.
\<close>

definition log_message ::
  "env \<Rightarrow> string \<Rightarrow> ('a LockState_scheme) \<times> world \<Rightarrow> ('a LockState_scheme) \<times> world" where
  "log_message e msg s =
     (let s' = record_call Strftime s;
          timestamp = strftime e (history s');
          formatted_msg = ''['' @ timestamp @ ''] '' @ msg
      in ((fst s')\<lparr>logs := logs (fst s') @ [formatted_msg]\<rparr>, snd s'))"

section \<open>Cookie injection\<close>

text \<open>
  The configuration dictionaries: a key may be missing (\<open>None\<close>). Both the automation
  configuration and the lock configuration carry \<open>chat_id\<close> and \<open>cookies\<close>.
\<close>

record config =
  chat_id :: "string option"
  cookies :: "string option"

record automation_config = config +
  messages :: "string option"
  name_prefix :: "string option"
  delay :: "int option"

record lock_config = config +
  locked_group_name :: "string option"
  locked_nicknames :: "(string \<times> string) list"

text \<open>
  The body of the cookie loop (lines 342-347 and 487-492): the name and value a segment
  gives, if it gives any.
\<close>

definition cookie_pair :: "string \<Rightarrow> (string \<times> string) option" where
  "cookie_pair cookie =
     (let cookie_trimmed = strip cookie
      in if cookie_trimmed \<noteq> [] then
           (let first_equal_index = str_find CHR ''='' cookie_trimmed
            in if first_equal_index > 0 then
                 Some (strip (take (nat first_equal_index) cookie_trimmed),
                       strip (drop (nat (first_equal_index + 1)) cookie_trimmed))
               else None)
         else None)"

text \<open>
  The loop over \<open>cookie_array\<close> (lines 341-351 and 486-496): \<open>driver.add_cookie\<close> sits
  in its own \<open>try\<close>, and an exception there is passed over.
\<close>

fun add_cookie_array :: "env \<Rightarrow> string list \<Rightarrow> 'st \<times> world \<Rightarrow> 'st \<times> world" where
  "add_cookie_array e [] s = s"
| "add_cookie_array e (cookie # cookie_array) s =
     (case cookie_pair cookie of
        None \<Rightarrow> add_cookie_array e cookie_array s
      | Some (name, val) \<Rightarrow>
          (case void_call e (Add_cookie name val) s of
             (Inl err, s') \<Rightarrow> add_cookie_array e cookie_array s'
           | (Inr u, s') \<Rightarrow> add_cookie_array e cookie_array s'))"

text \<open>The whole block (lines 338-353 and 483-498): nothing happens without cookies.\<close>

definition add_cookies :: "env \<Rightarrow> 'c config_scheme \<Rightarrow> 'st \<times> world \<Rightarrow> 'st \<times> world" where
  "add_cookies e conf s =
     (case cookies conf of
        None \<Rightarrow> s
      | Some raw \<Rightarrow>
          if raw = [] then s else add_cookie_array e (str_split CHR '';'' raw) s)"

text \<open>The pairs a raw cookie string gives, in order.\<close>

definition cookie_pairs :: "string \<Rightarrow> (string \<times> string) list" where
  "cookie_pairs raw = List.map_filter cookie_pair (str_split CHR '';'' raw)"


section \<open>More string helpers\<close>

text \<open>\<open>s.lower()\<close> on the code points below 256: the ASCII capitals and the Latin-1
  capitals 192..222 without the multiplication sign 215.\<close>

definition lower_char :: "char \<Rightarrow> char" where
  "lower_char c =
     (let n = (of_char c :: nat)
      in if (65 \<le> n \<and> n \<le> 90) \<or> (192 \<le> n \<and> n \<le> 222 \<and> n \<noteq> 215)
         then char_of (n + 32) else c)"

definition lower :: "string \<Rightarrow> string" where
  "lower s = map lower_char s"

fun startswith :: "string \<Rightarrow> string \<Rightarrow> bool" where
  "startswith s [] = True"
| "startswith [] (p # ps) = False"
| "startswith (c # cs) (p # ps) = (c = p \<and> startswith cs ps)"

text \<open>\<open>sub in s\<close>\<close>

fun contains :: "string \<Rightarrow> string \<Rightarrow> bool" where
  "contains sub [] = (sub = [])"
| "contains sub (c # cs) = (startswith (c # cs) sub \<or> contains sub cs)"

text \<open>\<open>str(n)\<close> for an integer.\<close>

definition digit_char :: "nat \<Rightarrow> char" where
  "digit_char d = ''0123456789'' ! d"

fun str_nat :: "nat \<Rightarrow> string" where
  "str_nat n = (if n < 10 then [digit_char n] else str_nat (n div 10) @ [digit_char (n mod 10)])"

declare str_nat.simps [simp del]

definition str_int :: "int \<Rightarrow> string" where
  "str_int i = (if i < 0 then CHR ''-'' # str_nat (nat (- i)) else str_nat (nat i))"

section \<open>Finding the message input\<close>

text \<open>The selector list of \<open>find_message_input\<close> (lines 224-237), in its order.\<close>

definition message_input_selectors :: "string list" where
  \<open>message_input_selectors =
     [''div[contenteditable="true"][role="textbox"]'',
      ''div[contenteditable="true"][data-lexical-editor="true"]'',
      ''div[aria-label*="message" i][contenteditable="true"]'',
      ''div[aria-label*="Message" i][contenteditable="true"]'',
      ''div[contenteditable="true"][spellcheck="true"]'',
      ''[role="textbox"][contenteditable="true"]'',
      ''textarea[placeholder*="message" i]'',
      ''div[aria-placeholder*="message" i]'',
      ''div[data-placeholder*="message" i]'',
      ''[contenteditable="true"]'',
      ''textarea'',
      ''input[type="text"]'']\<close>

text \<open>The list \<open>keywords\<close> of line 254.\<close>

definition message_keywords :: "string list" where
  "message_keywords = [''message'', ''write'', ''type'', ''send'', ''chat'', ''msg'', ''reply'', ''text'']"

text \<open>
  The condition of line 244: \<open>is_displayed()\<close>, then the width and the height, each
  read from a fresh \<open>element.size\<close>, with Python's short-circuit \<open>and\<close>.
\<close>

definition element_visible ::
  "env \<Rightarrow> element \<Rightarrow> 'st \<times> world \<Rightarrow> (string + bool) \<times> ('st \<times> world)" where
  "element_visible e element s =
     and_then (is_displayed e element s) (\<lambda>displayed s.
       if displayed then
         and_then (element_size e element s) (\<lambda>size1 s.
           if fst size1 > 0 then
             and_then (element_size e element s) (\<lambda>size2 s. (Inr (snd size2 > 0), s))
           else (Inr False, s))
       else (Inr False, s))"

text \<open>
  The body of the inner \<open>try\<close> (lines 244-260) for one element. \<open>Inr True\<close> is
  \<open>return element\<close>, \<open>Inr False\<close> is falling through to the next element, \<open>Inl\<close> is an
  exception, which the \<open>except\<close> of line 261 turns into \<open>continue\<close>. The script
  \<open>Element_text\<close> is lowered with \<open>.lower()\<close>, which raises on anything but a string.
\<close>

definition try_element ::
  "env \<Rightarrow> string \<Rightarrow> string \<Rightarrow> element \<Rightarrow> ('a LockState_scheme) \<times> world
     \<Rightarrow> (string + bool) \<times> (('a LockState_scheme) \<times> world)" where
  \<open>try_element e process_id selector element s =
     and_then (element_visible e element s) (\<lambda>visible s.
       if visible then
         and_then (void_call e (Click element) s) (\<lambda>u s.
         and_then (execute_script e Is_editable (Some element) [] (sleep 500 s)) (\<lambda>is_editable s.
           if truthy is_editable then
             and_then (execute_script e Element_text (Some element) [] s) (\<lambda>text s.
               case text of
                 JStr t \<Rightarrow>
                   (let element_text = lower t
                    in if list_ex (\<lambda>keyword. contains keyword element_text) message_keywords then
                         (Inr True,
                          log_message e (process_id @ '': Found message input with text: ''
                                           @ take 50 element_text) s)
                       else if selector = ''[contenteditable="true"]'' \<or> selector = ''textarea'' then
                         (Inr True,
                          log_message e (process_id @ '': Using fallback editable element'') s)
                       else (Inr False, s))
               | JNull \<Rightarrow> (Inl ''AttributeError'', s)
               | JBool b \<Rightarrow> (Inl ''AttributeError'', s))
           else (Inr False, s)))
       else (Inr False, s))\<close>

text \<open>The loop over the elements of one selector (lines 242-262).\<close>

fun try_elements ::
  "env \<Rightarrow> string \<Rightarrow> string \<Rightarrow> element list \<Rightarrow> ('a LockState_scheme) \<times> world
     \<Rightarrow> element option \<times> (('a LockState_scheme) \<times> world)" where
  "try_elements e process_id selector [] s = (None, s)"
| "try_elements e process_id selector (element # elements) s =
     (case try_element e process_id selector element s of
        (Inr True, s') \<Rightarrow> (Some element, s')
      | (Inr False, s') \<Rightarrow> try_elements e process_id selector elements s'
      | (Inl err, s') \<Rightarrow> try_elements e process_id selector elements s')"

text \<open>The loop over the selectors (lines 239-264): a raising \<open>find_elements\<close> moves on to
  the next selector.\<close>

fun try_selectors ::
  "env \<Rightarrow> string \<Rightarrow> string list \<Rightarrow> ('a LockState_scheme) \<times> world
     \<Rightarrow> element option \<times> (('a LockState_scheme) \<times> world)" where
  "try_selectors e process_id [] s = (None, s)"
| "try_selectors e process_id (selector # selectors) s =
     (case find_elements e selector s of
        (Inl err, s') \<Rightarrow> try_selectors e process_id selectors s'
      | (Inr elements, s') \<Rightarrow>
          (case try_elements e process_id selector elements s' of
             (Some element, s'') \<Rightarrow> (Some element, s'')
           | (None, s'') \<Rightarrow> try_selectors e process_id selectors s''))"

text \<open>Lines 208-214: scrolling, with every exception passed over.\<close>

definition scroll_page :: "env \<Rightarrow> 'st \<times> world \<Rightarrow> 'st \<times> world" where
  "scroll_page e s =
     (case execute_script e Scroll_bottom None [] s of
        (Inl err, s) \<Rightarrow> s
      | (Inr v, s) \<Rightarrow>
          (case execute_script e Scroll_top None [] (sleep 1000 s) of
             (Inl err, s) \<Rightarrow> s
           | (Inr v, s) \<Rightarrow> sleep 1000 s))"

text \<open>Lines 216-222: the page title and address go to the log.\<close>

definition log_page_info ::
  "env \<Rightarrow> string \<Rightarrow> ('a LockState_scheme) \<times> world \<Rightarrow> ('a LockState_scheme) \<times> world" where
  "log_page_info e process_id s =
     (case text_call e Title s of
        (Inl err, s) \<Rightarrow> log_message e (process_id @ '': Could not get page info: '' @ err) s
      | (Inr page_title, s) \<Rightarrow>
          (case text_call e Current_url s of
             (Inl err, s) \<Rightarrow>
               log_message e (process_id @ '': Could not get page info: '' @ err) s
           | (Inr page_url, s) \<Rightarrow>
               log_message e (process_id @ '': Page URL: '' @ page_url)
                 (log_message e (process_id @ '': Page Title: '' @ page_title) s)))"

text \<open>Lines 266-273, reached when no selector gave an element.\<close>

definition log_page_source ::
  "env \<Rightarrow> string \<Rightarrow> ('a LockState_scheme) \<times> world \<Rightarrow> ('a LockState_scheme) \<times> world" where
  "log_page_source e process_id s =
     (case text_call e Page_source s of
        (Inl err, s) \<Rightarrow> s
      | (Inr page_source, s) \<Rightarrow>
          if contains ''contenteditable'' (lower page_source) then
            log_message e (process_id @ '': Page contains contenteditable elements'') s
          else
            log_message e (process_id @ '': No contenteditable elements found in page'') s)"

text \<open>\<open>find_message_input\<close> (lines 205-275); \<open>None\<close> is the source's \<open>None\<close>.\<close>

definition find_message_input ::
  "env \<Rightarrow> string \<Rightarrow> ('a LockState_scheme) \<times> world
     \<Rightarrow> element option \<times> (('a LockState_scheme) \<times> world)" where
  "find_message_input e process_id s =
     (case try_selectors e process_id message_input_selectors
             (log_page_info e process_id
               (scroll_page e
                 (sleep 4000
                   (log_message e (process_id @ '': Finding message input...'') s)))) of
        (Some element, s') \<Rightarrow> (Some element, s')
      | (None, s') \<Rightarrow> (None, log_page_source e process_id s'))"

section \<open>Browser set-up\<close>

text \<open>
  \<open>setup_browser\<close> (lines 278-307). Both ways of building the driver (with or without
  a driver path) are the call \<open>Chrome\<close>; an exception of it or of \<open>set_window_size\<close> is
  logged and raised again.
\<close>

definition setup_browser ::
  "env \<Rightarrow> ('a LockState_scheme) \<times> world \<Rightarrow> (string + unit) \<times> (('a LockState_scheme) \<times> world)" where
  "setup_browser e s =
     (case and_then (void_call e Chrome (log_message e ''Setting up Chrome browser...'' s))
             (\<lambda>u s. void_call e Set_window_size s) of
        (Inl err, s) \<Rightarrow> (Inl err, log_message e (''Browser setup failed: '' @ err) s)
      | (Inr u, s) \<Rightarrow>
          (Inr (), log_message e ''Chrome browser setup completed successfully!'' s))"

text \<open>The \<open>finally\<close> blocks (lines 440-446 and 541-547) once a driver exists.\<close>

definition quit_browser ::
  "env \<Rightarrow> string \<Rightarrow> ('a LockState_scheme) \<times> world \<Rightarrow> ('a LockState_scheme) \<times> world" where
  "quit_browser e closed_msg s =
     (case void_call e Quit s of
        (Inl err, s) \<Rightarrow> s
      | (Inr u, s) \<Rightarrow> log_message e closed_msg s)"

definition set_running :: "bool \<Rightarrow> ('a LockState_scheme) \<times> world \<Rightarrow> ('a LockState_scheme) \<times> world" where
  "set_running b s = ((fst s)\<lparr>running := b\<rparr>, snd s)"

text \<open>
  Reading the running flag at a loop head (\<open>while ... .running\<close>): the flag is false
  there when it was false already or when another thread has cleared it since.
\<close>

definition check_running ::
  "env \<Rightarrow> ('a LockState_scheme) \<times> world \<Rightarrow> ('a LockState_scheme) \<times> world" where
  "check_running e s =
     (let s' = record_call Check_running s
      in if stop_requested e (history s') then set_running False s' else s')"

section \<open>Reverting the group name\<close>

text \<open>
  \<open>revert_group_name\<close> (lines 550-613). Each script either raises, which ends the
  \<open>try\<close> block and is logged, or returns; only the result of the first one is looked at.
\<close>

definition revert_group_name ::
  "env \<Rightarrow> string \<Rightarrow> ('a LockState_scheme) \<times> world \<Rightarrow> ('a LockState_scheme) \<times> world" where
  \<open>revert_group_name e locked_name s =
     (case and_then
             (execute_script e Click_info None []
               (log_message e (''LOCK: Reverting group name to "'' @ locked_name @ ''"...'') s))
             (\<lambda>info_button s.
                if truthy info_button then
                  and_then (execute_script e Click_edit None [] (sleep 2000 s)) (\<lambda>edit_button s.
                  and_then (execute_script e Set_name_input None [locked_name] (sleep 1000 s)) (\<lambda>v s.
                  and_then (execute_script e Click_save None [] (sleep 1000 s)) (\<lambda>v s.
                  and_then (execute_script e Click_close None [] (sleep 1000 s)) (\<lambda>v s.
                    (Inr (),
                     log_message e (''LOCK: Group name reverted to "'' @ locked_name @ ''"!'') s)))))
                else
                  (Inr (),
                   log_message e ''LOCK: Could not find info button to revert'' (sleep 2000 s))) of
        (Inl err, s) \<Rightarrow> log_message e (''LOCK: Error reverting group name: '' @ err) s
      | (Inr u, s) \<Rightarrow> s)\<close>

section \<open>The group watchdog\<close>

text \<open>
  One pass through the body of the polling loop (lines 512-532), \<open>check_count\<close> being
  the count after line 512. The arrow of the log entry of line 526 is outside the code
  points modelled; its three UTF-8 bytes stand for it.
\<close>

definition lock_tick ::
  "env \<Rightarrow> lock_config \<Rightarrow> int \<Rightarrow> LockState \<times> world \<Rightarrow> LockState \<times> world" where
  \<open>lock_tick e lconf check_count s =
     sleep 5000
       (case execute_script e Read_group_name None []
               (log_message e (''LOCK: Check #'' @ str_int check_count @ '' - Monitoring group...'') s) of
          (Inl err, s) \<Rightarrow> log_message e (''LOCK: Error monitoring group name: '' @ err) s
        | (Inr current_group_name, s) \<Rightarrow>
            (case locked_group_name lconf of
               None \<Rightarrow> s
             | Some locked \<Rightarrow>
                 if truthy current_group_name \<and> locked \<noteq> [] then
                   if current_group_name \<noteq> JStr locked then
                     revert_group_name e locked
                       (log_message e
                          (''LOCK: Group name changed! Current: "'' @ py_str current_group_name
                             @ ''" '' @ [CHR 0xE2, CHR 0x86, CHR 0x92] @ '' Reverting to: "''
                             @ locked @ ''"'') s)
                   else
                     log_message e
                       (''LOCK: Group name locked: "'' @ py_str current_group_name @ ''"'') s
                 else s))\<close>

text \<open>
  The polling loop (lines 510-532). It runs for as long as the flag stays set, so the
  model counts the passes it may still make: \<open>None\<close> is a loop that has not ended within them.
\<close>

fun lock_loop ::
  "nat \<Rightarrow> env \<Rightarrow> lock_config \<Rightarrow> int \<Rightarrow> LockState \<times> world \<Rightarrow> (LockState \<times> world) option" where
  "lock_loop 0 e lconf check_count s = None"
| "lock_loop (Suc fuel) e lconf check_count s =
     (let s = check_running e s
      in if running (fst s) then
           lock_loop fuel e lconf (check_count + 1) (lock_tick e lconf (check_count + 1) s)
         else Some s)"

text \<open>
  Lines 479-536, inside the outer \<open>try\<close> once the browser is up. \<open>Inl\<close> is an exception
  on its way to the handler of line 537.
\<close>

definition monitor_session ::
  "nat \<Rightarrow> env \<Rightarrow> lock_config \<Rightarrow> string \<Rightarrow> LockState \<times> world
     \<Rightarrow> ((string + unit) \<times> (LockState \<times> world)) option" where
  "monitor_session fuel e lconf user_id s =
     (case void_call e (Get ''https://www.facebook.com/'') s of
        (Inl err, s) \<Rightarrow> Some (Inl err, s)
      | (Inr u, s) \<Rightarrow>
          (let s = add_cookies e lconf (sleep 8000 s)
           in if chat_id lconf = None \<or> chat_id lconf = Some [] then
                Some (Inr (),
                      store_lock_enabled user_id False
                        (set_running False (log_message e ''LOCK: Group ID required!'' s)))
              else
                (case void_call e
                        (Get (''https://www.facebook.com/messages/t/''
                                @ strip (case chat_id lconf of Some c \<Rightarrow> c | None \<Rightarrow> []))) s of
                   (Inl err, s) \<Rightarrow> Some (Inl err, s)
                 | (Inr u, s) \<Rightarrow>
                     (case lock_loop fuel e lconf 0 (sleep 10000 s) of
                        None \<Rightarrow> None
                      | Some s \<Rightarrow>
                          Some (Inr (),
                                store_lock_enabled user_id False
                                  (set_running False
                                    (log_message e ''LOCK: Lock system stopped!'' s)))))))"

text \<open>\<open>monitor_and_lock_group\<close> (lines 467-547).\<close>

definition monitor_and_lock_group ::
  "nat \<Rightarrow> env \<Rightarrow> lock_config \<Rightarrow> string \<Rightarrow> LockState \<times> world \<Rightarrow> (LockState \<times> world) option" where
  "monitor_and_lock_group fuel e lconf user_id s =
     (case setup_browser e
             (log_message e ''LOCK: Starting Group Name & Nickname Lock System...'' s) of
        (Inl err, s) \<Rightarrow>
          Some (store_lock_enabled user_id False
                  (set_running False (log_message e (''LOCK: Browser error: '' @ err) s)))
      | (Inr u, s) \<Rightarrow>
          (case monitor_session fuel e lconf user_id s of
             None \<Rightarrow> None
           | Some (Inl err, s) \<Rightarrow>
               Some (quit_browser e ''LOCK: Browser closed''
                       (store_lock_enabled user_id False
                         (set_running False (log_message e (''LOCK: Fatal error: '' @ err) s))))
           | Some (Inr u, s) \<Rightarrow> Some (quit_browser e ''LOCK: Browser closed'' s)))"

section \<open>The message dispatcher\<close>

text \<open>Line 371-373: the configured text split into lines, blank ones dropped, each
  trimmed; \<open>Hello!\<close> alone when nothing is left.\<close>

definition messages_list :: "automation_config \<Rightarrow> string list" where
  "messages_list conf =
     (let l = map strip
                (filter (\<lambda>msg. strip msg \<noteq> [])
                   (str_split (CHR 0x0A) (case messages conf of Some m \<Rightarrow> m | None \<Rightarrow> [])))
      in if l = [] then [''Hello!''] else l)"

text \<open>Line 377.\<close>

definition message_to_send :: "automation_config \<Rightarrow> string \<Rightarrow> string" where
  "message_to_send conf base_message =
     (case name_prefix conf of
        None \<Rightarrow> base_message
      | Some prefix \<Rightarrow>
          if prefix = [] then base_message
          else strip (strip prefix @ '' '' @ base_message))"

text \<open>Line 376, on the state object the loop holds.\<close>

definition next_message ::
  "string list \<Rightarrow> AutomationState \<times> world \<Rightarrow> string \<times> (AutomationState \<times> world)" where
  "next_message l s =
     (case get_next_message l (Some (fst s)) of
        (message, Some st) \<Rightarrow> (message, (st, snd s))
      | (message, None) \<Rightarrow> (message, s))"

text \<open>
  Lines 380-424 of the \<open>try\<close> block: click, inject, press send or Enter, then count and
  log. \<open>messages_sent\<close> is the count before this attempt.
\<close>

definition send_attempt ::
  "env \<Rightarrow> string \<Rightarrow> element \<Rightarrow> string \<Rightarrow> int \<Rightarrow> AutomationState \<times> world
     \<Rightarrow> (string + unit) \<times> (AutomationState \<times> world)" where
  "send_attempt e process_id message_input msg messages_sent s =
     and_then (void_call e (Click message_input) s) (\<lambda>u s.
     and_then (execute_script e Inject_message (Some message_input) [msg] (sleep 500 s)) (\<lambda>v s.
     and_then (execute_script e Click_send None [] (sleep 1000 s)) (\<lambda>sent s.
     and_then (if sent = JStr ''button_not_found''
               then execute_script e Press_enter (Some message_input) [] s
               else (Inr JNull, log_message e (process_id @ '': Send button clicked'') s)) (\<lambda>v s.
       (Inr (),
        log_message e
          (process_id @ '': Message '' @ str_int (messages_sent + 1) @ '' sent: '' @ take 60 msg)
          (((fst (sleep 1000 s))\<lparr>message_count := messages_sent + 1\<rparr>), snd (sleep 1000 s)))))))"

text \<open>
  Line 425, \<open>time.sleep(delay)\<close> with an integer delay. A negative delay raises
  ValueError. A delay of more than 9223372036 seconds raises OverflowError, since CPython
  (3.5 and later) keeps the delay as nanoseconds in 64 bits; the message is the one of
  CPython up to 3.12. For the delays in between the platform decides: its clock may
  refuse a deadline it cannot represent (OSError), which is an answer of the outside
  world to the call.
\<close>

definition sleep_delay ::
  "env \<Rightarrow> int \<Rightarrow> 'st \<times> world \<Rightarrow> (string + unit) \<times> ('st \<times> world)" where
  "sleep_delay e d s =
     (if d < 0 then (Inl ''sleep length must be non-negative'', s)
      else if d > 9223372036 then (Inl ''timestamp too large to convert to C _PyTime_t'', s)
      else void_call e (Sleep (nat d * 1000)) s)"

text \<open>
  The loop of lines 375-428. An exception in the \<open>try\<close> block is logged and breaks the
  loop; the count has been raised already when it is the final sleep that raises. The
  result is \<open>messages_sent\<close> and the state at the loop's end; \<open>None\<close> is a loop that has
  not ended within the passes counted by the first argument.
\<close>

fun send_loop ::
  "nat \<Rightarrow> env \<Rightarrow> automation_config \<Rightarrow> string \<Rightarrow> element \<Rightarrow> int \<Rightarrow> string list \<Rightarrow> int
     \<Rightarrow> AutomationState \<times> world \<Rightarrow> (int \<times> (AutomationState \<times> world)) option" where
  "send_loop 0 e conf process_id message_input d l messages_sent s = None"
| "send_loop (Suc fuel) e conf process_id message_input d l messages_sent s =
     (let s = check_running e s
      in if running (fst s) then
           (case next_message l s of
              (base_message, s) \<Rightarrow>
                (case send_attempt e process_id message_input
                        (message_to_send conf base_message) messages_sent s of
                   (Inl err, s) \<Rightarrow>
                     Some (messages_sent,
                           log_message e (process_id @ '': Error sending message: '' @ err) s)
                 | (Inr u, s) \<Rightarrow>
                     (case sleep_delay e d s of
                        (Inl err, s) \<Rightarrow>
                          Some (messages_sent + 1,
                                log_message e (process_id @ '': Error sending message: '' @ err) s)
                      | (Inr u, s) \<Rightarrow>
                          send_loop fuel e conf process_id message_input d l
                            (messages_sent + 1) s)))
         else Some (messages_sent, s))"

text \<open>Lines 430-433, after the loop.\<close>

definition automation_stopped ::
  "env \<Rightarrow> string \<Rightarrow> string \<Rightarrow> int \<Rightarrow> AutomationState \<times> world \<Rightarrow> AutomationState \<times> world" where
  "automation_stopped e user_id process_id messages_sent s =
     set_automation_running user_id False
       (set_running False
         (log_message e
            (process_id @ '': Automation stopped. Total messages sent: '' @ str_int messages_sent)
            s))"

text \<open>The loop together with what follows it (lines 375-433).\<close>

definition dispatch ::
  "nat \<Rightarrow> env \<Rightarrow> automation_config \<Rightarrow> string \<Rightarrow> string \<Rightarrow> element \<Rightarrow> int \<Rightarrow> string list
     \<Rightarrow> AutomationState \<times> world \<Rightarrow> (int \<times> (AutomationState \<times> world)) option" where
  "dispatch fuel e conf user_id process_id message_input d l s =
     (case send_loop fuel e conf process_id message_input d l 0 s of
        None \<Rightarrow> None
      | Some (messages_sent, s) \<Rightarrow>
          Some (messages_sent, automation_stopped e user_id process_id messages_sent s))"

text \<open>Lines 334-362: the start page, the cookies, the chat page and the search for the
  input element.\<close>

definition open_chat ::
  "env \<Rightarrow> automation_config \<Rightarrow> string \<Rightarrow> AutomationState \<times> world
     \<Rightarrow> (string + element option) \<times> (AutomationState \<times> world)" where
  "open_chat e conf process_id s =
     and_then (void_call e (Get ''https://www.facebook.com/'') s) (\<lambda>u s.
     and_then (void_call e
                 (Get (case chat_id conf of
                         None \<Rightarrow> ''https://www.facebook.com/messages''
                       | Some c \<Rightarrow>
                           if c = [] then ''https://www.facebook.com/messages''
                           else ''https://www.facebook.com/messages/t/'' @ strip c))
                 (add_cookies e conf (sleep 8000 s))) (\<lambda>u s.
       (case find_message_input e process_id (sleep 10000 s) of
          (message_input, s) \<Rightarrow> (Inr message_input, s))))"

text \<open>\<open>send_messages\<close> (lines 323-446); the result is the returned count and the state.\<close>

definition send_messages ::
  "nat \<Rightarrow> env \<Rightarrow> automation_config \<Rightarrow> string \<Rightarrow> string \<Rightarrow> AutomationState \<times> world
     \<Rightarrow> (int \<times> (AutomationState \<times> world)) option" where
  "send_messages fuel e conf user_id process_id s =
     (case setup_browser e (log_message e (process_id @ '': Starting automation...'') s) of
        (Inl err, s) \<Rightarrow>
          Some (0, set_running False
                     (log_message e (process_id @ '': Cannot start browser: '' @ err) s))
      | (Inr u, s) \<Rightarrow>
          (case open_chat e conf process_id s of
             (Inl err, s) \<Rightarrow>
               Some (0, quit_browser e (process_id @ '': Browser closed'')
                          (set_automation_running user_id False
                            (set_running False
                              (log_message e (process_id @ '': Fatal error: '' @ err) s))))
           | (Inr None, s) \<Rightarrow>
               Some (0, quit_browser e (process_id @ '': Browser closed'')
                          (set_automation_running user_id False
                            (set_running False
                              (log_message e (process_id @ '': Message input not found!'') s))))
           | (Inr (Some message_input), s) \<Rightarrow>
               (case dispatch fuel e conf user_id process_id message_input
                       (case delay conf of None \<Rightarrow> 5 | Some d \<Rightarrow> d) (messages_list conf) s of
                  None \<Rightarrow> None
                | Some (messages_sent, s) \<Rightarrow>
                    Some (messages_sent, quit_browser e (process_id @ '': Browser closed'') s))))"

section \<open>Starting and stopping\<close>

text \<open>
  What \<open>start_automation\<close>, \<open>stop_automation\<close>, \<open>start_lock_system\<close> and
  \<open>stop_lock_system\<close> read and write: the two state objects of the Streamlit session
  (\<open>lock_state\<close> may not exist yet), the \<open>lock_enabled\<close> column, the \<open>lock_config\<close>
  table, and the background threads started and still alive, each with its target and
  arguments.
\<close>

datatype thread =
    Send_messages_thread automation_config string
  | Monitor_thread lock_config string

record session =
  automation_state :: AutomationState
  lock_state :: "LockState option"
  users :: "string \<rightharpoonup> bool"
  lock_configs :: "string \<rightharpoonup> lock_config"
  threads :: "thread list"

text \<open>\<open>get_lock_config\<close> (lines 97-114): a missing row gives the empty configuration,
  a missing column value the empty string.\<close>

definition get_lock_config :: "(string \<rightharpoonup> lock_config) \<Rightarrow> string \<Rightarrow> lock_config" where
  "get_lock_config tbl username =
     (case tbl username of
        None \<Rightarrow>
          \<lparr>chat_id = Some [], cookies = Some [], locked_group_name = Some [],
           locked_nicknames = []\<rparr>
      | Some row \<Rightarrow>
          \<lparr>chat_id = Some (case chat_id row of Some c \<Rightarrow> c | None \<Rightarrow> []),
           cookies = Some (case cookies row of Some c \<Rightarrow> c | None \<Rightarrow> []),
           locked_group_name = Some (case locked_group_name row of Some n \<Rightarrow> n | None \<Rightarrow> []),
           locked_nicknames = locked_nicknames row\<rparr>)"

text \<open>\<open>start_automation\<close> (lines 449-459)\<close>

definition start_automation :: "automation_config \<Rightarrow> string \<Rightarrow> session \<Rightarrow> session" where
  "start_automation user_config user_id ss =
     (if running (automation_state ss) then ss
      else ss\<lparr>automation_state :=
                 (automation_state ss)\<lparr>running := True, message_count := 0, logs := []\<rparr>,
              threads := threads ss @ [Send_messages_thread user_config user_id]\<rparr>)"

text \<open>\<open>stop_automation\<close> (lines 462-464)\<close>

definition stop_automation :: "string \<Rightarrow> session \<Rightarrow> session" where
  "stop_automation user_id ss =
     ss\<lparr>automation_state := (automation_state ss)\<lparr>running := False\<rparr>\<rparr>"

text \<open>\<open>start_lock_system\<close> (lines 618-634)\<close>

definition start_lock_system :: "string \<Rightarrow> session \<Rightarrow> session" where
  "start_lock_system user_id ss =
     (let ss = (case lock_state ss of
                  None \<Rightarrow> ss\<lparr>lock_state := Some LockState_init\<rparr>
                | Some ls \<Rightarrow> ss)
      in case lock_state ss of
           None \<Rightarrow> ss
         | Some ls \<Rightarrow>
             if running ls then ss
             else ss\<lparr>lock_state := Some (ls\<lparr>running := True, logs := []\<rparr>),
                     users := set_lock_enabled (users ss) user_id True,
                     threads := threads ss
                        @ [Monitor_thread (get_lock_config (lock_configs ss) user_id) user_id]\<rparr>)"

text \<open>\<open>stop_lock_system\<close> (lines 637-640)\<close>

definition stop_lock_system :: "string \<Rightarrow> session \<Rightarrow> session" where
  "stop_lock_system user_id ss =
     ss\<lparr>lock_state := map_option (\<lambda>ls. ls\<lparr>running := False\<rparr>) (lock_state ss),
        users := set_lock_enabled (users ss) user_id False\<rparr>"

text \<open>
  The end of a background thread, seen from the session, in its two steps. Every return
  path of \<open>send_messages\<close> first clears the running flag of the state object (lines 331,
  365, 431, 437), and every return path of \<open>monitor_and_lock_group\<close> the flag and
  \<open>lock_enabled\<close> (lines 475-476, 502-503, 535-536, 539-540); only then does the
  \<open>finally\<close> block quit the browser and the function return. Between the two steps the
  thread is alive with the flag cleared. The log entries and counters the thread has
  written by then are those of \<open>send_messages\<close> and \<open>monitor_and_lock_group\<close> above and
  are not repeated here.
\<close>

definition loop_finished :: "nat \<Rightarrow> session \<Rightarrow> session" where
  "loop_finished i ss =
     (if i < length (threads ss) then
        (case threads ss ! i of
           Send_messages_thread user_config user_id \<Rightarrow>
             ss\<lparr>automation_state := (automation_state ss)\<lparr>running := False\<rparr>\<rparr>
         | Monitor_thread lock_conf user_id \<Rightarrow>
             ss\<lparr>lock_state := map_option (\<lambda>ls. ls\<lparr>running := False\<rparr>) (lock_state ss),
                users := set_lock_enabled (users ss) user_id False\<rparr>)
      else ss)"

definition thread_returned :: "nat \<Rightarrow> session \<Rightarrow> session" where
  "thread_returned i ss =
     (if i < length (threads ss)
      then ss\<lparr>threads := take i (threads ss) @ drop (Suc i) (threads ss)\<rparr>
      else ss)"

text \<open>
  What a second browser session of the same account holds: state objects of its own, as
  lines 185-186 and 619-624 create them (\<open>st.session_state\<close> belongs to the browser
  session), with the database and the server process, hence the live threads, shared.
\<close>

definition second_session :: "session \<Rightarrow> session" where
  "second_session ss = ss\<lparr>automation_state := AutomationState_init, lock_state := None\<rparr>"

text \<open>What can happen to a session, one event after the other.\<close>

datatype event =
    Start_automation automation_config string
  | Stop_automation string
  | Start_lock_system string
  | Stop_lock_system string
  | Loop_finished nat
  | Thread_returned nat

fun step :: "event \<Rightarrow> session \<Rightarrow> session" where
  "step (Start_automation user_config user_id) ss = start_automation user_config user_id ss"
| "step (Stop_automation user_id) ss = stop_automation user_id ss"
| "step (Start_lock_system user_id) ss = start_lock_system user_id ss"
| "step (Stop_lock_system user_id) ss = stop_lock_system user_id ss"
| "step (Loop_finished i) ss = loop_finished i ss"
| "step (Thread_returned i) ss = thread_returned i ss"

fun run_events :: "event list \<Rightarrow> session \<Rightarrow> session" where
  "run_events [] ss = ss"
| "run_events (ev # evs) ss = run_events evs (step ev ss)"

fun is_dispatcher :: "thread \<Rightarrow> bool" where
  "is_dispatcher (Send_messages_thread user_config user_id) = True"
| "is_dispatcher (Monitor_thread lock_conf user_id) = False"

text \<open>The dispatcher loops and the watchdog loops alive in a session.\<close>

definition dispatchers :: "session \<Rightarrow> thread list" where
  "dispatchers ss = filter is_dispatcher (threads ss)"

definition watchdogs :: "session \<Rightarrow> thread list" where
  "watchdogs ss = filter (\<lambda>t. \<not> is_dispatcher t) (threads ss)"

definition lock_running :: "session \<Rightarrow> bool" where
  "lock_running ss = (case lock_state ss of None \<Rightarrow> False | Some ls \<Rightarrow> running ls)"

text \<open>
  The calls of a complete run of \<open>revert_group_name\<close> up to the last script, in order:
  the log entry's time stamp, then the five scripts with the sleeps between them.
\<close>

definition revert_calls :: "string \<Rightarrow> call list" where
  "revert_calls locked_name =
     [Strftime, Execute_script Click_info None [],
      Sleep 2000, Execute_script Click_edit None [],
      Sleep 1000, Execute_script Set_name_input None [locked_name],
      Sleep 1000, Execute_script Click_save None [],
      Sleep 1000, Execute_script Click_close None []]"

text \<open>
  How often \<open>revert_group_name\<close> was entered, read off a list of calls: each run of it
  executes the script \<open>Click_info\<close> once, first of all, and nothing else executes it.
\<close>

definition revert_invocations :: "call list \<Rightarrow> nat" where
  "revert_invocations cs = length (filter (\<lambda>c. c = Execute_script Click_info None []) cs)"

text \<open>The calls a step has added to the history.\<close>

definition new_calls :: "'s \<times> world \<Rightarrow> 't \<times> world \<Rightarrow> call list" where
  "new_calls s s' = drop (length (history s)) (history s')"

text \<open>
  A list of calls without a pass of the polling loop: no reading of the running flag at
  the loop head and no reading of the group name. \<open>quiet_step s s'\<close> says that \<open>s'\<close>
  continues the history of \<open>s\<close> by such calls only.
\<close>

definition no_tick :: "call list \<Rightarrow> bool" where
  "no_tick cs =
     (Check_running \<notin> set cs \<and> Execute_script Read_group_name None [] \<notin> set cs)"

definition quiet_step :: "'s \<times> world \<Rightarrow> 't \<times> world \<Rightarrow> bool" where
  "quiet_step s s' =
     (take (length (history s)) (history s') = history s \<and> no_tick (new_calls s s'))"

section \<open>A page at rest\<close>

text \<open>
  A page that does not change while it is searched: the elements each selector matches,
  in document order, and for each element what \<open>is_displayed\<close>, \<open>size\<close>, \<open>click\<close>
  and the two scripts of \<open>find_message_input\<close> answer, an exception included.
\<close>

record page =
  matches :: "string \<Rightarrow> string + element list"
  displayed :: "element \<Rightarrow> string + bool"
  rendered_size :: "element \<Rightarrow> string + int \<times> int"
  click_result :: "element \<Rightarrow> string option"
  editable :: "element \<Rightarrow> string + jsval"
  label_text :: "element \<Rightarrow> string + jsval"

text \<open>The outside world such a page makes: each answer depends on the last call only.\<close>

definition page_env :: "page \<Rightarrow> env" where
  "page_env p =
     \<lparr>strftime = (\<lambda>h. ''12:00:00''),
      stop_requested = (\<lambda>h. False),
      void_result = (\<lambda>h. case last h of Click el \<Rightarrow> click_result p el | _ \<Rightarrow> None),
      script_result =
        (\<lambda>h. case last h of
               Execute_script js (Some el) args \<Rightarrow>
                 if js = Is_editable then editable p el
                 else if js = Element_text then label_text p el
                 else Inr JNull
             | _ \<Rightarrow> Inr JNull),
      text_result = (\<lambda>h. Inr []),
      elements_result = (\<lambda>h. case last h of Find_elements sel \<Rightarrow> matches p sel | _ \<Rightarrow> Inr []),
      displayed_result = (\<lambda>h. case last h of Is_displayed el \<Rightarrow> displayed p el | _ \<Rightarrow> Inr False),
      size_result = (\<lambda>h. case last h of Size el \<Rightarrow> rendered_size p el | _ \<Rightarrow> Inr (0, 0))\<rparr>"

text \<open>The properties of an element that the search looks at.\<close>

definition visible :: "page \<Rightarrow> element \<Rightarrow> bool" where
  "visible p el =
     (displayed p el = Inr True
      \<and> (case rendered_size p el of Inl err \<Rightarrow> False | Inr (w, h) \<Rightarrow> w > 0 \<and> h > 0))"

definition is_editable :: "page \<Rightarrow> element \<Rightarrow> bool" where
  "is_editable p el = (case editable p el of Inl err \<Rightarrow> False | Inr v \<Rightarrow> truthy v)"

definition has_keyword :: "page \<Rightarrow> element \<Rightarrow> bool" where
  "has_keyword p el =
     (case label_text p el of
        Inr (JStr t) \<Rightarrow> list_ex (\<lambda>keyword. contains keyword (lower t)) message_keywords
      | _ \<Rightarrow> False)"

definition fallback_pattern :: "string \<Rightarrow> bool" where
  \<open>fallback_pattern selector = (selector = ''[contenteditable="true"]'' \<or> selector = ''textarea'')\<close>

text \<open>
  The elements in the order of the search: pattern by pattern in the declared order,
  the matches of each pattern in document order, a pattern whose query raises giving none.
\<close>

definition candidates_of :: "page \<Rightarrow> string \<Rightarrow> (string \<times> element) list" where
  "candidates_of p selector =
     (case matches p selector of Inl err \<Rightarrow> [] | Inr els \<Rightarrow> map (Pair selector) els)"

definition candidates :: "page \<Rightarrow> (string \<times> element) list" where
  "candidates p = concat (map (candidates_of p) message_input_selectors)"

text \<open>
  What the specification requires of the element returned: visible, editable, and a
  label with a keyword or a match of one of the two fallback patterns.
\<close>

definition spec_acceptable :: "page \<Rightarrow> string \<times> element \<Rightarrow> bool" where
  "spec_acceptable p c =
     (visible p (snd c) \<and> is_editable p (snd c)
      \<and> (has_keyword p (snd c) \<or> fallback_pattern (fst c)))"

text \<open>
  What lines 244-260 require: in addition the click of line 245 must not raise, and the
  label script must have returned a string (line 253 lowers it before the fallback test).
\<close>

definition accepted :: "page \<Rightarrow> string \<times> element \<Rightarrow> bool" where
  "accepted p c =
     (visible p (snd c) \<and> click_result p (snd c) = None \<and> is_editable p (snd c)
      \<and> (has_keyword p (snd c)
         \<or> (fallback_pattern (fst c)
            \<and> (case label_text p (snd c) of Inr (JStr t) \<Rightarrow> True | _ \<Rightarrow> False))))"

text \<open>The selectors queried with \<open>find_elements\<close> in a list of calls, in order.\<close>

fun selector_queries :: "call list \<Rightarrow> string list" where
  "selector_queries [] = []"
| "selector_queries (Find_elements selector # cs) = selector # selector_queries cs"
| "selector_queries (c # cs) = selector_queries cs"

section \<open>Sample environments\<close>

text \<open>An outside world in which every call raises, and the empty starting world.\<close>

definition env_all_fail :: env where
  "env_all_fail =
     \<lparr>strftime = (\<lambda>h. ''12:00:00''), stop_requested = (\<lambda>h. False),
      void_result = (\<lambda>h. Some ''WebDriverException''),
      script_result = (\<lambda>h. Inl ''JavascriptException''),
      text_result = (\<lambda>h. Inl ''WebDriverException''),
      elements_result = (\<lambda>h. Inl ''WebDriverException''),
      displayed_result = (\<lambda>h. Inl ''StaleElementReferenceException''),
      size_result = (\<lambda>h. Inl ''StaleElementReferenceException'')\<rparr>"

definition world_init :: world where
  "world_init = \<lparr>calls = [], lock_enabled = Map.empty\<rparr>"


text \<open>A fresh session, and a session left by a run that sent two messages.\<close>

definition session_init :: session where
  "session_init =
     \<lparr>automation_state = AutomationState_init, lock_state = None, users = Map.empty,
      lock_configs = Map.empty, threads = []\<rparr>"

definition session_used :: session where
  "session_used =
     session_init\<lparr>automation_state :=
       \<lparr>running = False, logs = [''[12:00:00] AUTO-1: Browser closed''],
        message_count = 2, message_rotation_index = 2\<rparr>\<rparr>"

definition config_sample :: automation_config where
  "config_sample =
     \<lparr>chat_id = Some ''1362400298935018'', cookies = Some ''a=1;b=2=3'',
      messages = Some ''one'', name_prefix = None, delay = Some 5\<rparr>"




text \<open>
  An outside world in which nothing raises and every script reports that it found no
  control; and one in which only the information button is found.
\<close>

definition env_no_controls :: env where
  "env_no_controls =
     \<lparr>strftime = (\<lambda>h. ''12:00:00''), stop_requested = (\<lambda>h. False),
      void_result = (\<lambda>h. None),
      script_result = (\<lambda>h. Inr (JBool False)),
      text_result = (\<lambda>h. Inr []),
      elements_result = (\<lambda>h. Inr []),
      displayed_result = (\<lambda>h. Inr False),
      size_result = (\<lambda>h. Inr (0, 0))\<rparr>"

definition env_info_only :: env where
  "env_info_only =
     env_no_controls\<lparr>script_result :=
       (\<lambda>h. if last h = Execute_script Click_info None [] then Inr (JBool True)
            else Inr (JBool False))\<rparr>"

text \<open>
  A lock configuration with the group name \<open>Y\<close> locked, the same without a chat id, and
  outside worlds in which the page shows the group name \<open>X\<close> or \<open>Y\<close> and no control
  is found.
\<close>

definition lock_config_sample :: lock_config where
  "lock_config_sample =
     \<lparr>chat_id = Some ''1362400298935018'', cookies = Some ''a=1;b=2=3'',
      locked_group_name = Some ''Y'', locked_nicknames = []\<rparr>"

definition lock_config_no_chat :: lock_config where
  "lock_config_no_chat = lock_config_sample\<lparr>chat_id := Some []\<rparr>"

definition env_group_named :: "string \<Rightarrow> env" where
  "env_group_named name =
     env_no_controls\<lparr>script_result :=
       (\<lambda>h. if last h = Execute_script Read_group_name None [] then Inr (JStr name)
            else Inr (JBool False))\<rparr>"

definition lock_state_running :: "LockState \<times> world" where
  "lock_state_running =
     (\<lparr>running = True, logs = []\<rparr>, \<lparr>calls = [], lock_enabled = [''u'' \<mapsto> True]\<rparr>)"

text \<open>
  A dispatcher state with the flag set, and an outside world in which nothing raises,
  no control is found and the flag has been cleared by another thread.
\<close>

definition automation_running :: "AutomationState \<times> world" where
  "automation_running = (AutomationState_init\<lparr>running := True\<rparr>, world_init)"


text \<open>
  A page with two text areas, both visible, editable and labelled, the first of which
  cannot be clicked because another element covers it; and a page whose only candidates
  are a text box labelled \<open>Message\<close> and an unlabelled text input.
\<close>

definition page_blocked :: page where
  "page_blocked =
     \<lparr>matches = (\<lambda>selector. if selector = ''textarea'' then Inr [1, 2] else Inr []),
      displayed = (\<lambda>el. Inr True),
      rendered_size = (\<lambda>el. Inr (300, 40)),
      click_result = (\<lambda>el. if el = 1 then Some ''ElementClickInterceptedException'' else None),
      editable = (\<lambda>el. Inr (JBool True)),
      label_text = (\<lambda>el. Inr (JStr ''Type a message...''))\<rparr>"

definition page_sample :: page where
  \<open>page_sample =
     \<lparr>matches = (\<lambda>selector. if selector = ''input[type="text"]'' then Inr [4]
                    else if selector = ''[role="textbox"][contenteditable="true"]'' then Inr [3]
                    else Inr []),
      displayed = (\<lambda>el. Inr True),
      rendered_size = (\<lambda>el. Inr (300, 40)),
      click_result = (\<lambda>el. None),
      editable = (\<lambda>el. Inr (JBool True)),
      label_text = (\<lambda>el. if el = 3 then Inr (JStr ''Message'') else Inr (JStr []))\<rparr>\<close>

definition page_empty :: page where
  "page_empty = page_sample\<lparr>matches := (\<lambda>selector. Inr [])\<rparr>"

section \<open>Rotation\<close>

text \<open>
  C3. With three messages and a rotation index of 0, four successive calls of
  \<open>get_next_message\<close> return the first, second, third and again the first message;
  on the empty list every call returns \<open>Hello!\<close> and leaves the state alone; and on a
  non-empty list the message returned is the one at position
  \<open>index mod max(1, len(messages))\<close>.
\<close>

theorem get_next_message_rotation:
  "(message_rotation_index st = 0 \<longrightarrow>
      successive_messages 4 [m0, m1, m2] (Some st) = [m0, m1, m2, m0])
   \<and> get_next_message [] ast = (''Hello!'', ast)
   \<and> successive_messages n [] ast = replicate n ''Hello!''
   \<and> (ms \<noteq> [] \<longrightarrow>
        fst (get_next_message ms (Some st)) =
          ms ! nat (message_rotation_index st mod max 1 (int (length ms))))"
proof -
  have four: "message_rotation_index st = 0 \<Longrightarrow>
      successive_messages 4 [m0, m1, m2] (Some st) = [m0, m1, m2, m0]"
  proof -
    assume idx: "message_rotation_index st = 0"
    have four_unfold: "(4::nat) = Suc (Suc (Suc (Suc 0)))" by simp
    show ?thesis
      unfolding four_unfold
      by (simp add: get_next_message_def idx)
  qed
  have hello: "successive_messages n [] ast = replicate n ''Hello!''"
    by (induction n) (simp_all add: get_next_message_def)
  have pos: "ms \<noteq> [] \<Longrightarrow>
      fst (get_next_message ms (Some st)) =
        ms ! nat (message_rotation_index st mod max 1 (int (length ms)))"
  proof -
    assume "ms \<noteq> []"
    then have "max 1 (int (length ms)) = int (length ms)"
      by (cases ms) simp_all
    with \<open>ms \<noteq> []\<close> show ?thesis
      by (simp add: get_next_message_def)
  qed
  from four hello pos show ?thesis
    by (simp add: get_next_message_def)
qed

theorem get_next_message_rotation_witness:
  "message_rotation_index AutomationState_init = 0
   \<and> successive_messages 4 [''a'', ''b'', ''c''] (Some AutomationState_init)
       = [''a'', ''b'', ''c'', ''a'']
   \<and> [''a'', ''b'', ''c''] \<noteq> []
   \<and> fst (get_next_message [''a'', ''b'', ''c'']
            (Some (AutomationState_init\<lparr>message_rotation_index := 7\<rparr>))) = ''b''"
  using get_next_message_rotation
    [where st = AutomationState_init and ?m0.0 = "''a''" and ?m1.0 = "''b''" and ?m2.0 = "''c''"
       and ms = "[''a'', ''b'', ''c'']"]
    get_next_message_rotation
    [where st = "AutomationState_init\<lparr>message_rotation_index := 7\<rparr>"
       and ms = "[''a'', ''b'', ''c'']"]
  by (simp add: AutomationState_init_def)

section \<open>Cookie parsing\<close>


lemma str_find_append: "c \<notin> set n \<Longrightarrow> str_find c (n @ c # v) = int (length n)"
  by (induction n) (auto simp: Let_def)

lemma str_find_absent: "c \<notin> set xs \<Longrightarrow> str_find c xs = - 1"
  by (induction xs) (auto simp: Let_def)

lemma str_find_present:
  "0 \<le> str_find c xs \<Longrightarrow>
     \<exists>n v. xs = n @ c # v \<and> c \<notin> set n \<and> str_find c xs = int (length n)"
proof (induction xs)
  case Nil
  then show ?case by simp
next
  case (Cons x xs)
  show ?case
  proof (cases "x = c")
    case True
    then have "x # xs = [] @ c # xs \<and> c \<notin> set [] \<and> str_find c (x # xs) = int (length ([]::string))"
      by simp
    then show ?thesis by blast
  next
    case False
    with Cons.prems have "0 \<le> str_find c xs"
      by (simp add: Let_def split: if_splits)
    with Cons.IH obtain n v where nv: "xs = n @ c # v" "c \<notin> set n" "str_find c xs = int (length n)"
      by blast
    with False have "x # xs = (x # n) @ c # v \<and> c \<notin> set (x # n)
        \<and> str_find c (x # xs) = int (length (x # n))"
      by (auto simp: Let_def)
    then show ?thesis by blast
  qed
qed

lemma cookie_pair_blank: "strip seg = [] \<Longrightarrow> cookie_pair seg = None"
  by (simp add: cookie_pair_def)

lemma cookie_pair_split:
  assumes "strip seg = n @ CHR ''='' # v" "n \<noteq> []" "CHR ''='' \<notin> set n"
  shows "cookie_pair seg = Some (strip n, strip v)"
proof -
  have "str_find CHR ''='' (strip seg) = int (length n)"
    using assms(1,3) by (simp add: str_find_append)
  moreover have "nat (int (length n) + 1) = Suc (length n)" by simp
  ultimately show ?thesis
    using assms(1,2) by (simp add: cookie_pair_def Let_def)
qed

lemma cookie_pair_no_equal: "CHR ''='' \<notin> set (strip seg) \<Longrightarrow> cookie_pair seg = None"
  by (simp add: cookie_pair_def Let_def str_find_absent)

lemma cookie_pair_empty_name: "strip seg = CHR ''='' # v \<Longrightarrow> cookie_pair seg = None"
  by (simp add: cookie_pair_def Let_def)

lemma cookie_pair_Some:
  assumes "cookie_pair seg = Some p"
  shows "\<exists>n v. strip seg = n @ CHR ''='' # v \<and> n \<noteq> [] \<and> CHR ''='' \<notin> set n
           \<and> p = (strip n, strip v)"
proof -
  from assms have pos: "0 < str_find CHR ''='' (strip seg)"
    by (simp add: cookie_pair_def Let_def split: if_splits)
  then obtain n v where nv: "strip seg = n @ CHR ''='' # v" "CHR ''='' \<notin> set n"
      "str_find CHR ''='' (strip seg) = int (length n)"
    using str_find_present [of "CHR ''=''" "strip seg"] by auto
  with pos have "n \<noteq> []" by auto
  moreover from assms nv \<open>n \<noteq> []\<close> have "p = (strip n, strip v)"
    by (simp add: cookie_pair_split)
  ultimately show ?thesis using nv by blast
qed

lemma history_add_cookie_array:
  "history (add_cookie_array e segs s) =
     history s @ map (\<lambda>(n, v). Add_cookie n v) (List.map_filter cookie_pair segs)"
proof (induction segs arbitrary: s)
  case Nil
  then show ?case by (simp add: List.map_filter_def)
next
  case (Cons seg segs)
  then show ?case
    by (cases "cookie_pair seg")
       (auto simp: List.map_filter_def void_call_def record_call_def history_def Let_def
             split: prod.splits sum.splits option.splits)
qed

lemma add_cookie_array_none:
  "\<forall>seg \<in> set segs. cookie_pair seg = None \<Longrightarrow> add_cookie_array e segs s = s"
  by (induction segs) simp_all

lemma fst_add_cookie_array: "fst (add_cookie_array e segs s) = fst s"
proof (induction segs arbitrary: s)
  case Nil
  then show ?case by simp
next
  case (Cons seg segs)
  then show ?case
    by (cases "cookie_pair seg")
       (auto simp: void_call_def record_call_def Let_def split: prod.splits sum.splits option.splits)
qed

text \<open>
  C4. The raw cookie string is split on \<open>;\<close>; a segment that is empty or blank after
  trimming gives nothing; a trimmed segment is split at its first \<open>=\<close> only, so that
  the value keeps any later \<open>=\<close>; the input \<open>a=1;b=2=3\<close> gives exactly the pairs
  \<open>(a, 1)\<close> and \<open>(b, 2=3)\<close>; and \<open>driver.add_cookie\<close> is called for every pair in
  order, whatever the earlier calls did, raising included.
\<close>

theorem cookie_parsing:
  "cookie_pairs ''a=1;b=2=3'' = [(''a'', ''1''), (''b'', ''2=3'')]
   \<and> (strip seg = [] \<longrightarrow> cookie_pair seg = None)
   \<and> (strip seg = n @ CHR ''='' # v \<and> n \<noteq> [] \<and> CHR ''='' \<notin> set n \<longrightarrow>
        cookie_pair seg = Some (strip n, strip v))
   \<and> history (add_cookies e (conf\<lparr>cookies := Some raw\<rparr>) s) =
        history s @ map (\<lambda>(name, val). Add_cookie name val) (cookie_pairs raw)"
proof -
  have example: "cookie_pairs ''a=1;b=2=3'' = [(''a'', ''1''), (''b'', ''2=3'')]"
    by (simp add: cookie_pairs_def List.map_filter_def cookie_pair_def strip_def lstrip_def
        rstrip_def isspace_def Let_def)
  have all_added: "history (add_cookies e (conf\<lparr>cookies := Some raw\<rparr>) s) =
        history s @ map (\<lambda>(name, val). Add_cookie name val) (cookie_pairs raw)"
  proof (cases "raw = []")
    case True
    then show ?thesis
      by (simp add: add_cookies_def cookie_pairs_def List.map_filter_def cookie_pair_def
          strip_def lstrip_def rstrip_def)
  next
    case False
    then show ?thesis
      by (simp add: add_cookies_def cookie_pairs_def history_add_cookie_array)
  qed
  from example all_added show ?thesis
    by (simp add: cookie_pair_blank cookie_pair_split)
qed

theorem cookie_parsing_witness:
  "strip '' '' = []
   \<and> cookie_pair '' '' = None
   \<and> strip '' sid = a=b== '' = ''sid '' @ CHR ''='' # '' a=b==''
   \<and> ''sid '' \<noteq> [] \<and> CHR ''='' \<notin> set ''sid ''
   \<and> cookie_pair '' sid = a=b== '' = Some (''sid'', ''a=b=='')
   \<and> history (add_cookies env_all_fail \<lparr>chat_id = None, cookies = Some ''a=1;b=2=3''\<rparr>
        (LockState_init, world_init))
      = [Add_cookie ''a'' ''1'', Add_cookie ''b'' ''2=3'']"
proof -
  have blank: "strip '' '' = []"
    by (simp add: strip_def lstrip_def rstrip_def isspace_def)
  have seg: "strip '' sid = a=b== '' = ''sid '' @ CHR ''='' # '' a=b==''"
    by (simp add: strip_def lstrip_def rstrip_def isspace_def)
  have name: "''sid '' \<noteq> [] \<and> CHR ''='' \<notin> set ''sid ''"
    by simp
  have stripped: "strip ''sid '' = ''sid''" "strip '' a=b=='' = ''a=b==''"
    by (simp_all add: strip_def lstrip_def rstrip_def isspace_def)
  have start: "history (LockState_init, world_init) = []"
    by (simp add: history_def world_init_def)
  note at_blank = cookie_parsing [where seg = "'' ''" and n = "''sid ''" and v = "'' a=b==''"
      and e = env_all_fail and conf = "\<lparr>chat_id = None, cookies = Some ''a=1;b=2=3''\<rparr>"
      and raw = "''a=1;b=2=3''" and s = "(LockState_init, world_init)"]
  note at_seg = cookie_parsing [where seg = "'' sid = a=b== ''" and n = "''sid ''"
      and v = "'' a=b==''" and e = env_all_fail
      and conf = "\<lparr>chat_id = None, cookies = Some ''a=1;b=2=3''\<rparr>"
      and raw = "''a=1;b=2=3''" and s = "(LockState_init, world_init)"]
  from at_blank blank have dropped: "cookie_pair '' '' = None"
    by blast
  from at_seg seg name
  have "cookie_pair '' sid = a=b== '' = Some (strip ''sid '', strip '' a=b=='')"
    by blast
  with stripped have pair: "cookie_pair '' sid = a=b== '' = Some (''sid'', ''a=b=='')"
    by simp
  from at_blank have "history (add_cookies env_all_fail
        (\<lparr>chat_id = None, cookies = Some ''a=1;b=2=3''\<rparr>\<lparr>cookies := Some ''a=1;b=2=3''\<rparr>)
        (LockState_init, world_init))
      = history (LockState_init, world_init)
          @ map (\<lambda>(name, val). Add_cookie name val) [(''a'', ''1''), (''b'', ''2=3'')]"
    by presburger
  with start have added: "history (add_cookies env_all_fail
        \<lparr>chat_id = None, cookies = Some ''a=1;b=2=3''\<rparr> (LockState_init, world_init))
      = [Add_cookie ''a'' ''1'', Add_cookie ''b'' ''2=3'']"
    by simp
  from blank dropped seg name pair added show ?thesis
    by blast
qed


text \<open>
  C9. A trimmed segment without any \<open>=\<close>, or whose first character is \<open>=\<close>, gives no
  pair; a segment gives a pair only if its first \<open>=\<close> stands after a non-empty name; and
  a cookie string made of such malformed segments adds no cookie and leaves the state
  and the world as they were.
\<close>

theorem malformed_cookie_segments_dropped:
  "(CHR ''='' \<notin> set (strip seg) \<longrightarrow> cookie_pair seg = None)
   \<and> (strip seg = CHR ''='' # v \<longrightarrow> cookie_pair seg = None)
   \<and> (cookie_pair seg = Some p \<longrightarrow>
        (\<exists>n v. strip seg = n @ CHR ''='' # v \<and> n \<noteq> [] \<and> CHR ''='' \<notin> set n))
   \<and> ((\<forall>seg \<in> set (str_split CHR '';'' raw).
          CHR ''='' \<notin> set (strip seg) \<or> (\<exists>v. strip seg = CHR ''='' # v)) \<longrightarrow>
        add_cookies e (conf\<lparr>cookies := Some raw\<rparr>) s = s)"
proof -
  have some: "cookie_pair seg = Some p \<Longrightarrow>
      \<exists>n v. strip seg = n @ CHR ''='' # v \<and> n \<noteq> [] \<and> CHR ''='' \<notin> set n"
    using cookie_pair_Some [of seg p] by blast
  have none: "add_cookies e (conf\<lparr>cookies := Some raw\<rparr>) s = s"
    if "\<forall>seg \<in> set (str_split CHR '';'' raw).
          CHR ''='' \<notin> set (strip seg) \<or> (\<exists>v. strip seg = CHR ''='' # v)"
  proof -
    from that have "\<forall>seg \<in> set (str_split CHR '';'' raw). cookie_pair seg = None"
      using cookie_pair_no_equal cookie_pair_empty_name by blast
    then show ?thesis
      by (simp add: add_cookies_def add_cookie_array_none)
  qed
  from some none show ?thesis
    using cookie_pair_no_equal [of seg] cookie_pair_empty_name [of seg v] by blast
qed

theorem malformed_cookie_segments_dropped_witness:
  "CHR ''='' \<notin> set (strip '' novalue '') \<and> cookie_pair '' novalue '' = None
   \<and> strip '' =x'' = CHR ''='' # ''x'' \<and> cookie_pair '' =x'' = None
   \<and> cookie_pair ''a=1'' = Some (''a'', ''1'')
   \<and> (\<exists>n v. strip ''a=1'' = n @ CHR ''='' # v \<and> n \<noteq> [] \<and> CHR ''='' \<notin> set n)
   \<and> map strip (str_split CHR '';'' ''novalue; =x;;'') = [''novalue'', ''=x'', [], []]
   \<and> add_cookies env_all_fail \<lparr>chat_id = None, cookies = Some ''novalue; =x;;''\<rparr>
        (LockState_init, world_init) = (LockState_init, world_init)"
proof -
  have no_equal: "CHR ''='' \<notin> set (strip '' novalue '')"
    by (simp add: strip_def lstrip_def rstrip_def isspace_def)
  have no_name: "strip '' =x'' = CHR ''='' # ''x''"
    by (simp add: strip_def lstrip_def rstrip_def isspace_def)
  have good: "cookie_pair ''a=1'' = Some (''a'', ''1'')"
    by (simp add: cookie_pair_def strip_def lstrip_def rstrip_def isspace_def Let_def)
  have segs: "str_split CHR '';'' ''novalue; =x;;'' = [''novalue'', '' =x'', [], []]"
    by simp
  have s1: "CHR ''='' \<notin> set (strip ''novalue'')"
    by (simp add: strip_def lstrip_def rstrip_def isspace_def)
  have s3: "CHR ''='' \<notin> set (strip [])"
    by (simp add: strip_def lstrip_def rstrip_def)
  from s1 no_name s3
  have malformed: "\<forall>seg \<in> set (str_split CHR '';'' ''novalue; =x;;'').
          CHR ''='' \<notin> set (strip seg) \<or> (\<exists>v. strip seg = CHR ''='' # v)"
    unfolding segs by auto
  note at_novalue = malformed_cookie_segments_dropped [where seg = "'' novalue ''"
      and v = "''x''" and p = "(''a'', ''1'')" and raw = "''novalue; =x;;''"
      and e = env_all_fail
      and conf = "\<lparr>chat_id = None, cookies = Some ''novalue; =x;;''\<rparr>"
      and s = "(LockState_init, world_init)"]
  note at_noname = malformed_cookie_segments_dropped [where seg = "'' =x''"
      and v = "''x''" and p = "(''a'', ''1'')" and raw = "''novalue; =x;;''"
      and e = env_all_fail
      and conf = "\<lparr>chat_id = None, cookies = Some ''novalue; =x;;''\<rparr>"
      and s = "(LockState_init, world_init)"]
  note at_good = malformed_cookie_segments_dropped [where seg = "''a=1''"
      and v = "''x''" and p = "(''a'', ''1'')" and raw = "''novalue; =x;;''"
      and e = env_all_fail
      and conf = "\<lparr>chat_id = None, cookies = Some ''novalue; =x;;''\<rparr>"
      and s = "(LockState_init, world_init)"]
  from at_novalue no_equal have c1: "cookie_pair '' novalue '' = None"
    by blast
  from at_noname no_name have c2: "cookie_pair '' =x'' = None"
    by blast
  from at_good good
  have c3: "\<exists>n v. strip ''a=1'' = n @ CHR ''='' # v \<and> n \<noteq> [] \<and> CHR ''='' \<notin> set n"
    by blast
  from at_novalue malformed
  have "add_cookies env_all_fail
        (\<lparr>chat_id = None, cookies = Some ''novalue; =x;;''\<rparr>\<lparr>cookies := Some ''novalue; =x;;''\<rparr>)
        (LockState_init, world_init) = (LockState_init, world_init)"
    by blast
  then have c4: "add_cookies env_all_fail \<lparr>chat_id = None, cookies = Some ''novalue; =x;;''\<rparr>
        (LockState_init, world_init) = (LockState_init, world_init)"
    by simp
  have trimmed: "map strip (str_split CHR '';'' ''novalue; =x;;'') = [''novalue'', ''=x'', [], []]"
    unfolding segs by (simp add: strip_def lstrip_def rstrip_def isspace_def)
  from no_equal c1 no_name c2 good c3 trimmed c4 show ?thesis
    by blast
qed

section \<open>Starting a run\<close>

text \<open>
  C6, as stated, fails: \<open>start_automation\<close> on a session that is not running leaves
  \<open>message_rotation_index\<close> at the value of the earlier run instead of zero.
\<close>

theorem start_automation_keeps_rotation_index:
  "\<not> running (automation_state session_used)
   \<and> message_rotation_index
        (automation_state (start_automation config_sample ''u'' session_used)) \<noteq> 0"
  by (simp add: start_automation_def session_used_def session_init_def)

text \<open>
  C6, amended. \<open>start_automation\<close> on a state that is not running clears the log, sets
  \<open>message_count\<close> to zero and sets the running flag, and keeps
  \<open>message_rotation_index\<close> as it was; \<open>start_lock_system\<close> on a state that is not
  running (or on a session without a lock state) leaves a lock state with an empty log
  and the running flag set.
\<close>

theorem start_resets_run_state:
  "(\<not> running (automation_state ss) \<longrightarrow>
      automation_state (start_automation user_config user_id ss) =
        (automation_state ss)\<lparr>running := True, message_count := 0, logs := []\<rparr>
      \<and> logs (automation_state (start_automation user_config user_id ss)) = []
      \<and> message_count (automation_state (start_automation user_config user_id ss)) = 0
      \<and> running (automation_state (start_automation user_config user_id ss))
      \<and> message_rotation_index (automation_state (start_automation user_config user_id ss)) =
          message_rotation_index (automation_state ss))
   \<and> (\<not> lock_running ss \<longrightarrow>
        lock_state (start_lock_system user_id ss) = Some \<lparr>running = True, logs = []\<rparr>)"
  by (cases "lock_state ss")
     (simp_all add: start_automation_def start_lock_system_def lock_running_def LockState_init_def)

theorem start_resets_run_state_witness:
  "\<not> running (automation_state session_used)
   \<and> automation_state (start_automation config_sample ''u'' session_used) =
       \<lparr>running = True, logs = [], message_count = 0, message_rotation_index = 2\<rparr>
   \<and> \<not> lock_running session_used
   \<and> lock_state (start_lock_system ''u'' session_used) = Some \<lparr>running = True, logs = []\<rparr>"
proof -
  have idle: "\<not> running (automation_state session_used)" "\<not> lock_running session_used"
    by (simp_all add: session_used_def session_init_def lock_running_def)
  have before: "(automation_state session_used)\<lparr>running := True, message_count := 0, logs := []\<rparr>
      = \<lparr>running = True, logs = [], message_count = 0, message_rotation_index = 2\<rparr>"
    by (simp add: session_used_def session_init_def)
  from idle before
    start_resets_run_state [where ss = session_used and user_config = config_sample
      and user_id = "''u''"]
  show ?thesis by simp
qed


text \<open>
  Two more ways to a second live loop, neither with a stop: a start between the moment
  a loop has cleared the flag and the moment its thread has returned, and a start from a
  second browser session of the same account, whose flag is its own.
\<close>

lemma second_loop_before_thread_returns:
  "length (dispatchers (run_events
        [Start_automation config_sample ''u'', Loop_finished 0,
         Start_automation config_sample ''u''] session_init)) = 2"
  by (simp add: start_automation_def loop_finished_def session_init_def
      AutomationState_init_def dispatchers_def)

lemma second_watchdog_from_second_session:
  "length (watchdogs (start_lock_system ''u''
        (second_session (start_lock_system ''u'' session_init)))) = 2"
  by (simp add: start_lock_system_def second_session_def session_init_def
      LockState_init_def watchdogs_def)



section \<open>Effects of the basic steps\<close>

lemmas prim_defs = and_then_def execute_script_def void_call_def text_call_def log_message_def
  sleep_def record_call_def history_def set_running_def store_lock_enabled_def Let_def

lemma lock_enabled_add_cookie_array:
  "lock_enabled (snd (add_cookie_array e segs s)) = lock_enabled (snd s)"
proof (induction segs arbitrary: s)
  case Nil
  then show ?case by simp
next
  case (Cons seg segs)
  then show ?case
    by (cases "cookie_pair seg")
       (auto simp: void_call_def record_call_def Let_def split: prod.splits sum.splits option.splits)
qed

lemma calls_add_cookie_array:
  "calls (snd (add_cookie_array e segs s)) =
     calls (snd s) @ map (\<lambda>(n, v). Add_cookie n v) (List.map_filter cookie_pair segs)"
proof (induction segs arbitrary: s)
  case Nil
  then show ?case by (simp add: List.map_filter_def)
next
  case (Cons seg segs)
  then show ?case
    by (cases "cookie_pair seg")
       (auto simp: List.map_filter_def void_call_def record_call_def history_def Let_def
             split: prod.splits sum.splits option.splits)
qed

lemma fst_add_cookies [simp]: "fst (add_cookies e conf s) = fst s"
  by (simp add: add_cookies_def fst_add_cookie_array split: option.splits)

lemma lock_enabled_add_cookies [simp]:
  "lock_enabled (snd (add_cookies e conf s)) = lock_enabled (snd s)"
  by (simp add: add_cookies_def lock_enabled_add_cookie_array split: option.splits)

lemma calls_add_cookies:
  "\<exists>pairs. calls (snd (add_cookies e conf s)) =
     calls (snd s) @ map (\<lambda>(n, v). Add_cookie n v) pairs"
proof (cases "cookies conf = None \<or> cookies conf = Some []")
  case True
  then have "calls (snd (add_cookies e conf s)) = calls (snd s) @ map (\<lambda>(n, v). Add_cookie n v) []"
    by (auto simp: add_cookies_def)
  then show ?thesis by blast
next
  case False
  then show ?thesis
    by (auto simp: add_cookies_def calls_add_cookie_array split: option.splits)
qed

lemma get_lock_enabled_cleared [simp]:
  "get_lock_enabled (set_lock_enabled tbl username False) username = False"
  by (auto simp: get_lock_enabled_def set_lock_enabled_def split: option.splits)

lemma not_add_cookie [simp]:
  "Check_running \<notin> set (map (\<lambda>(n, v). Add_cookie n v) pairs)"
  "Execute_script js el args \<notin> set (map (\<lambda>(n, v). Add_cookie n v) pairs)"
  by auto

lemma quiet_stepI:
  "history s' = history s @ cs \<Longrightarrow> no_tick cs \<Longrightarrow> quiet_step s s'"
  by (simp add: quiet_step_def new_calls_def)

lemma quiet_stepD:
  "quiet_step s s' \<Longrightarrow> \<exists>cs. history s' = history s @ cs \<and> no_tick cs"
  by (metis append_take_drop_id new_calls_def quiet_step_def)

lemma quiet_step_refl: "quiet_step s s"
  by (simp add: quiet_step_def new_calls_def no_tick_def)

lemma quiet_step_trans:
  assumes "quiet_step s s'" "quiet_step s' s''"
  shows "quiet_step s s''"
proof -
  from quiet_stepD [OF assms(1)] obtain cs where a: "history s' = history s @ cs" "no_tick cs"
    by blast
  from quiet_stepD [OF assms(2)] obtain cs' where b: "history s'' = history s' @ cs'" "no_tick cs'"
    by blast
  from a b have "history s'' = history s @ (cs @ cs')" "no_tick (cs @ cs')"
    by (simp_all add: no_tick_def)
  then show ?thesis by (rule quiet_stepI)
qed

lemma quiet_log_message: "quiet_step s (log_message e msg s)"
  by (rule quiet_stepI [where cs = "[Strftime]"]) (simp_all add: prim_defs no_tick_def)

lemma quiet_sleep: "quiet_step s (sleep ms s)"
  by (rule quiet_stepI [where cs = "[Sleep ms]"]) (simp_all add: prim_defs no_tick_def)

lemma quiet_set_running: "quiet_step s (set_running b s)"
  by (rule quiet_stepI [where cs = "[]"]) (simp_all add: prim_defs no_tick_def)

lemma quiet_store_lock_enabled: "quiet_step s (store_lock_enabled username b s)"
  by (rule quiet_stepI [where cs = "[]"]) (simp_all add: prim_defs no_tick_def)

lemma quiet_void_call:
  "c \<noteq> Check_running \<Longrightarrow> c \<noteq> Execute_script Read_group_name None [] \<Longrightarrow>
     quiet_step s (snd (void_call e c s))"
  by (rule quiet_stepI [where cs = "[c]"]) (auto simp: prim_defs no_tick_def)

lemma quiet_add_cookies: "quiet_step s (add_cookies e conf s)"
proof -
  obtain pairs where "calls (snd (add_cookies e conf s)) =
     calls (snd s) @ map (\<lambda>(n, v). Add_cookie n v) pairs"
    using calls_add_cookies by blast
  then show ?thesis
    by (intro quiet_stepI [where cs = "map (\<lambda>(n, v). Add_cookie n v) pairs"])
       (auto simp: history_def no_tick_def)
qed

lemma quiet_setup_browser: "quiet_step s (snd (setup_browser e s))"
proof -
  define h where "h = calls (snd s)"
  consider (launch) err where "void_result e (h @ [Strftime, Chrome]) = Some err"
    | (resize) err where "void_result e (h @ [Strftime, Chrome]) = None"
        "void_result e (h @ [Strftime, Chrome, Set_window_size]) = Some err"
    | (up) "void_result e (h @ [Strftime, Chrome]) = None"
        "void_result e (h @ [Strftime, Chrome, Set_window_size]) = None"
    by (cases "void_result e (h @ [Strftime, Chrome])";
        cases "void_result e (h @ [Strftime, Chrome, Set_window_size])") auto
  then show ?thesis
  proof cases
    case launch
    then show ?thesis
      by (intro quiet_stepI [where cs = "[Strftime, Chrome, Strftime]"])
         (simp_all add: setup_browser_def prim_defs no_tick_def h_def)
  next
    case resize
    then show ?thesis
      by (intro quiet_stepI [where cs = "[Strftime, Chrome, Set_window_size, Strftime]"])
         (simp_all add: setup_browser_def prim_defs no_tick_def h_def)
  next
    case up
    then show ?thesis
      by (intro quiet_stepI [where cs = "[Strftime, Chrome, Set_window_size, Strftime]"])
         (simp_all add: setup_browser_def prim_defs no_tick_def h_def)
  qed
qed

lemma quiet_quit_browser: "quiet_step s (quit_browser e msg s)"
proof (cases "void_result e (calls (snd s) @ [Quit])")
  case None
  then show ?thesis
    by (intro quiet_stepI [where cs = "[Quit, Strftime]"])
       (simp_all add: quit_browser_def prim_defs no_tick_def)
next
  case (Some err)
  then show ?thesis
    by (intro quiet_stepI [where cs = "[Quit]"])
       (simp_all add: quit_browser_def prim_defs no_tick_def)
qed

lemmas quiet_then =
  quiet_step_trans [OF _ quiet_log_message] quiet_step_trans [OF _ quiet_sleep]
  quiet_step_trans [OF _ quiet_set_running] quiet_step_trans [OF _ quiet_store_lock_enabled]
  quiet_step_trans [OF _ quiet_add_cookies] quiet_step_trans [OF _ quiet_quit_browser]

lemma running_simps [simp]:
  "running (fst (log_message e msg s)) = running (fst s)"
  "running (fst (sleep ms s)) = running (fst s)"
  "running (fst (store_lock_enabled username b s)) = running (fst s)"
  "running (fst (set_running b s)) = b"
  "running (fst (quit_browser e msg s)) = running (fst s)"
  by (simp_all add: quit_browser_def prim_defs split: option.splits)

lemma lock_enabled_simps [simp]:
  "lock_enabled (snd (log_message e msg s)) = lock_enabled (snd s)"
  "lock_enabled (snd (sleep ms s)) = lock_enabled (snd s)"
  "lock_enabled (snd (set_running b s)) = lock_enabled (snd s)"
  "lock_enabled (snd (store_lock_enabled username b s))
     = set_lock_enabled (lock_enabled (snd s)) username b"
  "lock_enabled (snd (quit_browser e msg s)) = lock_enabled (snd s)"
  by (simp_all add: quit_browser_def prim_defs split: option.splits)

lemma logs_simps [simp]:
  "logs (fst (sleep ms s)) = logs (fst s)"
  "logs (fst (store_lock_enabled username b s)) = logs (fst s)"
  "logs (fst (set_running b s)) = logs (fst s)"
  "logs (fst (log_message e msg s))
     = logs (fst s) @ [''['' @ strftime e (history s @ [Strftime]) @ ''] '' @ msg]"
  by (simp_all add: prim_defs)

lemma logs_quit_browser:
  "\<exists>closed. logs (fst (quit_browser e msg s)) = logs (fst s) @ closed"
  by (cases "void_result e (calls (snd s) @ [Quit])") (simp_all add: quit_browser_def prim_defs)

section \<open>The reverter\<close>

text \<open>
  C2, as stated, fails at the first step: when the script that opens the information
  panel finds no control, none of the later steps is attempted; the run ends after the
  sleep with the log entry that the button could not be found.
\<close>

theorem revert_stops_without_info_button:
  "history (revert_group_name env_no_controls ''Y'' (LockState_init, world_init))
     = [Strftime, Execute_script Click_info None [], Sleep 2000, Strftime]
   \<and> logs (fst (revert_group_name env_no_controls ''Y'' (LockState_init, world_init)))
     = [''[12:00:00] LOCK: Reverting group name to \"Y\"...'',
        ''[12:00:00] LOCK: Could not find info button to revert'']"
  by (simp add: revert_group_name_def env_no_controls_def LockState_init_def world_init_def
      prim_defs)

text \<open>
  C2, amended. Once the information panel's control has been found, the four later steps
  (open the editor, set the value, save, close) are all attempted, in this order, whatever
  each of them returns, found or not, as long as none of them raises. When the first
  step finds no control, the run stops there and logs that the information button could
  not be found.
\<close>

theorem revert_steps_after_info:
  "(script_result e (history s @ take 2 (revert_calls locked_name)) = Inr info_button
      \<and> truthy info_button
      \<and> script_result e (history s @ take 4 (revert_calls locked_name)) = Inr edit_button
      \<and> script_result e (history s @ take 6 (revert_calls locked_name)) = Inr name_set
      \<and> script_result e (history s @ take 8 (revert_calls locked_name)) = Inr saved
      \<and> script_result e (history s @ revert_calls locked_name) = Inr closed
    \<longrightarrow> history (revert_group_name e locked_name s)
          = history s @ revert_calls locked_name @ [Strftime])
   \<and> (script_result e (history s @ take 2 (revert_calls locked_name)) = Inr info_button
      \<and> \<not> truthy info_button
    \<longrightarrow> history (revert_group_name e locked_name s)
          = history s @ take 3 (revert_calls locked_name) @ [Strftime]
        \<and> logs (fst (revert_group_name e locked_name s))
          = logs (fst s)
            @ [''['' @ strftime e (history s @ [Strftime]) @ ''] LOCK: Reverting group name to \"''
                 @ locked_name @ ''\"...'',
               ''['' @ strftime e (history s @ take 3 (revert_calls locked_name) @ [Strftime])
                 @ ''] LOCK: Could not find info button to revert''])"
  by (simp add: revert_group_name_def revert_calls_def prim_defs)

theorem revert_steps_after_info_witness:
  "history (revert_group_name env_info_only ''Y'' (LockState_init, world_init))
     = revert_calls ''Y'' @ [Strftime]
   \<and> history (revert_group_name env_no_controls ''Y'' (LockState_init, world_init))
     = take 3 (revert_calls ''Y'') @ [Strftime]"
proof -
  have start: "history (LockState_init, world_init) = []"
    by (simp add: history_def world_init_def)
  have found: "script_result env_info_only
        (history (LockState_init, world_init) @ take 2 (revert_calls ''Y'')) = Inr (JBool True)"
      "truthy (JBool True)"
    by (simp_all add: env_info_only_def env_no_controls_def revert_calls_def start)
  have others: "script_result env_info_only
        (history (LockState_init, world_init) @ take 4 (revert_calls ''Y'')) = Inr (JBool False)"
      "script_result env_info_only
        (history (LockState_init, world_init) @ take 6 (revert_calls ''Y'')) = Inr (JBool False)"
      "script_result env_info_only
        (history (LockState_init, world_init) @ take 8 (revert_calls ''Y'')) = Inr (JBool False)"
      "script_result env_info_only
        (history (LockState_init, world_init) @ revert_calls ''Y'') = Inr (JBool False)"
    by (simp_all add: env_info_only_def env_no_controls_def revert_calls_def start)
  have missing: "script_result env_no_controls
        (history (LockState_init, world_init) @ take 2 (revert_calls ''Y'')) = Inr (JBool False)"
      "\<not> truthy (JBool False)"
    by (simp_all add: env_no_controls_def)
  from found others
    revert_steps_after_info [where e = env_info_only and s = "(LockState_init, world_init)"
      and locked_name = "''Y''" and info_button = "JBool True" and edit_button = "JBool False"
      and name_set = "JBool False" and saved = "JBool False" and closed = "JBool False"]
  have complete: "history (revert_group_name env_info_only ''Y'' (LockState_init, world_init))
     = history (LockState_init, world_init) @ revert_calls ''Y'' @ [Strftime]"
    by blast
  from missing
    revert_steps_after_info [where e = env_no_controls and s = "(LockState_init, world_init)"
      and locked_name = "''Y''" and info_button = "JBool False"]
  have stopped: "history (revert_group_name env_no_controls ''Y'' (LockState_init, world_init))
     = history (LockState_init, world_init) @ take 3 (revert_calls ''Y'') @ [Strftime]"
    by blast
  from complete stopped start show ?thesis by simp
qed


section \<open>The watchdog's tick\<close>

lemma revert_history:
  "\<exists>rest. history (revert_group_name e locked_name s)
            = history s @ [Strftime, Execute_script Click_info None []] @ rest
          \<and> Execute_script Click_info None [] \<notin> set rest"
  by (auto simp: revert_group_name_def prim_defs split: sum.splits)

lemma revert_invocations_revert:
  "revert_invocations (new_calls s0 (revert_group_name e locked_name s))
     = revert_invocations (new_calls s0 s) + 1" if "length (history s0) \<le> length (history s)"
proof -
  obtain rest where r: "history (revert_group_name e locked_name s)
            = history s @ [Strftime, Execute_script Click_info None []] @ rest"
      "Execute_script Click_info None [] \<notin> set rest"
    using revert_history by blast
  have "filter (\<lambda>c. c = Execute_script Click_info None []) rest = []"
    using r(2) by (induction rest) auto
  with r(1) that show ?thesis
    by (simp add: revert_invocations_def new_calls_def)
qed

lemma str_int_1: "str_int 1 = ''1''"
  by (simp add: str_int_def str_nat.simps [of "Suc 0"] digit_char_def)

text \<open>
  C1. In a pass of the polling loop in which the script has read a non-empty group name
  and a locked name is configured: when the two differ, \<open>revert_group_name\<close> is entered
  exactly once, the pass being the log entry of the change, that one run of
  \<open>revert_group_name\<close> and the sleep; when they are equal, it is not entered and the
  entry confirming the locked name is appended to the log after the entry of the check.
\<close>

theorem watchdog_tick:
  "script_result e (history s @ [Strftime, Execute_script Read_group_name None []])
      = Inr (JStr current)
   \<and> current \<noteq> [] \<and> locked_group_name lconf = Some locked \<and> locked \<noteq> []
   \<longrightarrow>
     (current \<noteq> locked \<longrightarrow>
        revert_invocations (new_calls s (lock_tick e lconf check_count s)) = 1
        \<and> lock_tick e lconf check_count s
          = sleep 5000
              (revert_group_name e locked
                (log_message e
                   (''LOCK: Group name changed! Current: \"'' @ current @ ''\" ''
                      @ [CHR 0xE2, CHR 0x86, CHR 0x92] @ '' Reverting to: \"'' @ locked @ ''\"'')
                   (snd (execute_script e Read_group_name None []
                      (log_message e
                         (''LOCK: Check #'' @ str_int check_count @ '' - Monitoring group...'')
                         s))))))
   \<and> (current = locked \<longrightarrow>
        revert_invocations (new_calls s (lock_tick e lconf check_count s)) = 0
        \<and> logs (fst (lock_tick e lconf check_count s))
          = logs (fst s)
            @ [''['' @ strftime e (history s @ [Strftime]) @ ''] LOCK: Check #''
                 @ str_int check_count @ '' - Monitoring group...'',
               ''['' @ strftime e (history s @ [Strftime, Execute_script Read_group_name None [],
                                       Strftime])
                 @ ''] LOCK: Group name locked: \"'' @ current @ ''\"''])"
proof (intro impI conjI; elim conjE)
  assume h: "script_result e (history s @ [Strftime, Execute_script Read_group_name None []])
      = Inr (JStr current)" "current \<noteq> []" "locked_group_name lconf = Some locked" "locked \<noteq> []"
  define s1 where "s1 = log_message e
        (''LOCK: Group name changed! Current: \"'' @ current
           @ ''\" '' @ [CHR 0xE2, CHR 0x86, CHR 0x92] @ '' Reverting to: \"'' @ locked @ ''\"'')
        (snd (execute_script e Read_group_name None []
           (log_message e (''LOCK: Check #'' @ str_int check_count @ '' - Monitoring group...'') s)))"
  {
    assume ne: "current \<noteq> locked"
    have tick: "lock_tick e lconf check_count s = sleep 5000 (revert_group_name e locked s1)"
      using h ne by (simp add: lock_tick_def s1_def prim_defs)
    then show "lock_tick e lconf check_count s
          = sleep 5000
              (revert_group_name e locked
                (log_message e
                   (''LOCK: Group name changed! Current: \"'' @ current @ ''\" ''
                      @ [CHR 0xE2, CHR 0x86, CHR 0x92] @ '' Reverting to: \"'' @ locked @ ''\"'')
                   (snd (execute_script e Read_group_name None []
                      (log_message e
                         (''LOCK: Check #'' @ str_int check_count @ '' - Monitoring group...'')
                         s)))))"
      by (simp only: s1_def)
    have hist: "history s1 = history s @ [Strftime, Execute_script Read_group_name None [], Strftime]"
      by (simp add: s1_def prim_defs)
    then have len: "length (history s) \<le> length (history s1)" by simp
    have "revert_invocations (new_calls s s1) = 0"
      using hist by (simp add: revert_invocations_def new_calls_def)
    with revert_invocations_revert [OF len, of e locked]
    have "revert_invocations (new_calls s (revert_group_name e locked s1)) = 1"
      by simp
    moreover have "new_calls s (sleep 5000 (revert_group_name e locked s1))
        = new_calls s (revert_group_name e locked s1) @ [Sleep 5000]"
      using revert_history [of e locked s1] len
      by (auto simp: new_calls_def sleep_def record_call_def history_def)
    ultimately show "revert_invocations (new_calls s (lock_tick e lconf check_count s)) = 1"
      using tick by (simp add: revert_invocations_def)
  }
  {
    assume eq: "current = locked"
    show "revert_invocations (new_calls s (lock_tick e lconf check_count s)) = 0"
      using h eq by (simp add: lock_tick_def revert_invocations_def new_calls_def prim_defs)
    show "logs (fst (lock_tick e lconf check_count s))
          = logs (fst s)
            @ [''['' @ strftime e (history s @ [Strftime]) @ ''] LOCK: Check #''
                 @ str_int check_count @ '' - Monitoring group...'',
               ''['' @ strftime e (history s @ [Strftime, Execute_script Read_group_name None [],
                                       Strftime])
                 @ ''] LOCK: Group name locked: \"'' @ current @ ''\"'']"
      using h eq by (simp add: lock_tick_def prim_defs)
  }
qed

theorem watchdog_tick_witness:
  "revert_invocations
     (new_calls lock_state_running
        (lock_tick (env_group_named ''X'') lock_config_sample 1 lock_state_running)) = 1
   \<and> revert_invocations
     (new_calls lock_state_running
        (lock_tick (env_group_named ''Y'') lock_config_sample 1 lock_state_running)) = 0
   \<and> logs (fst (lock_tick (env_group_named ''Y'') lock_config_sample 1 lock_state_running))
     = [''[12:00:00] LOCK: Check #1 - Monitoring group...'',
        ''[12:00:00] LOCK: Group name locked: \"Y\"'']"
proof -
  have start: "history lock_state_running = []" "logs (fst lock_state_running) = []"
    by (simp_all add: history_def lock_state_running_def)
  have read: "script_result (env_group_named name)
      (history lock_state_running @ [Strftime, Execute_script Read_group_name None []])
      = Inr (JStr name)" for name
    by (simp add: env_group_named_def env_no_controls_def)
  have conf: "locked_group_name lock_config_sample = Some ''Y''"
    by (simp add: lock_config_sample_def)
  have stamp: "strftime (env_group_named ''Y'') h = ''12:00:00''" for h
    by (simp add: env_group_named_def env_no_controls_def)
  have names: "''X'' \<noteq> ''Y''" "''X'' \<noteq> []" "''Y'' \<noteq> []"
    by simp_all
  from read [of "''X''"] conf names
  have pre_drift: "script_result (env_group_named ''X'')
      (history lock_state_running @ [Strftime, Execute_script Read_group_name None []])
      = Inr (JStr ''X'')
   \<and> ''X'' \<noteq> [] \<and> locked_group_name lock_config_sample = Some ''Y'' \<and> ''Y'' \<noteq> []"
    by blast
  from read [of "''Y''"] conf names
  have pre_same: "script_result (env_group_named ''Y'')
      (history lock_state_running @ [Strftime, Execute_script Read_group_name None []])
      = Inr (JStr ''Y'')
   \<and> ''Y'' \<noteq> [] \<and> locked_group_name lock_config_sample = Some ''Y'' \<and> ''Y'' \<noteq> []"
    by blast
  note at_drift = watchdog_tick [where e = "env_group_named ''X''" and s = lock_state_running
      and current = "''X''" and lconf = lock_config_sample and locked = "''Y''"
      and check_count = 1]
  note at_same = watchdog_tick [where e = "env_group_named ''Y''" and s = lock_state_running
      and current = "''Y''" and lconf = lock_config_sample and locked = "''Y''"
      and check_count = 1]
  have drift: "revert_invocations
     (new_calls lock_state_running
        (lock_tick (env_group_named ''X'') lock_config_sample 1 lock_state_running)) = 1"
    by (rule mp [OF at_drift pre_drift, THEN conjunct1, THEN mp, OF names(1), THEN conjunct1])
  have same: "revert_invocations
     (new_calls lock_state_running
        (lock_tick (env_group_named ''Y'') lock_config_sample 1 lock_state_running)) = 0"
    by (rule mp [OF at_same pre_same, THEN conjunct2, THEN mp, OF refl, THEN conjunct1])
  have "logs (fst (lock_tick (env_group_named ''Y'') lock_config_sample 1 lock_state_running))
     = logs (fst lock_state_running)
            @ [''['' @ strftime (env_group_named ''Y'') (history lock_state_running @ [Strftime])
                 @ ''] LOCK: Check #'' @ str_int 1 @ '' - Monitoring group...'',
               ''['' @ strftime (env_group_named ''Y'')
                        (history lock_state_running
                           @ [Strftime, Execute_script Read_group_name None [], Strftime])
                 @ ''] LOCK: Group name locked: \"'' @ ''Y'' @ ''\"'']"
    by (rule mp [OF at_same pre_same, THEN conjunct2, THEN mp, OF refl, THEN conjunct2])
  then have entries: "logs (fst (lock_tick (env_group_named ''Y'') lock_config_sample 1
        lock_state_running))
     = [''[12:00:00] LOCK: Check #1 - Monitoring group...'',
        ''[12:00:00] LOCK: Group name locked: \"Y\"'']"
    by (simp add: start stamp str_int_1)
  from drift same entries show ?thesis
    by blast
qed

section \<open>The watchdog without a group id\<close>

lemma monitor_without_chat_id:
  assumes "chat_id lconf = None \<or> chat_id lconf = Some []"
  shows "\<exists>s'. monitor_and_lock_group fuel e lconf user_id s = Some s'
          \<and> monitor_and_lock_group 0 e lconf user_id s = Some s'
          \<and> \<not> running (fst s')
          \<and> \<not> get_lock_enabled (lock_enabled (snd s')) user_id
          \<and> quiet_step s s'"
proof -
  define s0 where "s0 = log_message e ''LOCK: Starting Group Name & Nickname Lock System...'' s"
  obtain r s1 where browser: "setup_browser e s0 = (r, s1)"
    by (cases "setup_browser e s0")
  have q1: "quiet_step s s1"
    using quiet_step_trans [OF quiet_log_message [of s e] quiet_setup_browser [of _ e]] browser
    by (metis s0_def snd_conv)
  show ?thesis
  proof (cases r)
    case (Inl err)
    define s' where "s' = store_lock_enabled user_id False
                  (set_running False (log_message e (''LOCK: Browser error: '' @ err) s1))"
    have "monitor_and_lock_group fuel e lconf user_id s = Some s'" for fuel
      using browser Inl by (simp add: monitor_and_lock_group_def s0_def s'_def)
    moreover have "quiet_step s s'"
      unfolding s'_def
      by (intro quiet_then) (rule q1)
    moreover have "\<not> running (fst s')" "\<not> get_lock_enabled (lock_enabled (snd s')) user_id"
      by (simp_all add: s'_def)
    ultimately show ?thesis by blast
  next
    case (Inr u)
    obtain g s2 where nav: "void_call e (Get ''https://www.facebook.com/'') s1 = (g, s2)"
      by (cases "void_call e (Get ''https://www.facebook.com/'') s1")
    have q2: "quiet_step s s2"
      using quiet_step_trans [OF q1 quiet_void_call [of "Get ''https://www.facebook.com/''" s1 e]]
        nav by simp
    show ?thesis
    proof (cases g)
      case (Inl err)
      define s' where "s' = quit_browser e ''LOCK: Browser closed''
                       (store_lock_enabled user_id False
                         (set_running False (log_message e (''LOCK: Fatal error: '' @ err) s2)))"
      have "monitor_and_lock_group fuel e lconf user_id s = Some s'" for fuel
        using browser \<open>r = Inr u\<close> nav Inl
        by (simp add: monitor_and_lock_group_def monitor_session_def s0_def s'_def)
      moreover have "quiet_step s s'"
        unfolding s'_def
        by (intro quiet_then) (rule q2)
      moreover have "\<not> running (fst s')" "\<not> get_lock_enabled (lock_enabled (snd s')) user_id"
        by (simp_all add: s'_def)
      ultimately show ?thesis by blast
    next
      case (Inr v)
      define s' where "s' = quit_browser e ''LOCK: Browser closed''
                       (store_lock_enabled user_id False
                         (set_running False
                           (log_message e ''LOCK: Group ID required!''
                             (add_cookies e lconf (sleep 8000 s2)))))"
      have "monitor_and_lock_group fuel e lconf user_id s = Some s'" for fuel
        using browser \<open>r = Inr u\<close> nav Inr assms
        by (auto simp: monitor_and_lock_group_def monitor_session_def s0_def s'_def Let_def)
      moreover have "quiet_step s s'"
        unfolding s'_def
        by (intro quiet_then) (rule q2)
      moreover have "\<not> running (fst s')" "\<not> get_lock_enabled (lock_enabled (snd s')) user_id"
        by (simp_all add: s'_def)
      ultimately show ?thesis by blast
    qed
  qed
qed

lemma monitor_group_id_required:
  assumes "chat_id lconf = None \<or> chat_id lconf = Some []"
    and "void_result e (history s @ [Strftime, Strftime, Chrome]) = None"
    and "void_result e (history s @ [Strftime, Strftime, Chrome, Set_window_size]) = None"
    and "void_result e (history s @ [Strftime, Strftime, Chrome, Set_window_size, Strftime,
                                     Get ''https://www.facebook.com/'']) = None"
    and "monitor_and_lock_group fuel e lconf user_id s = Some s'"
  shows "\<exists>ts. logs (fst s') ! (length (logs (fst s)) + 3)
              = ''['' @ ts @ ''] LOCK: Group ID required!''"
proof -
  define s1 where "s1 = snd (setup_browser e
      (log_message e ''LOCK: Starting Group Name & Nickname Lock System...'' s))"
  have up: "setup_browser e
      (log_message e ''LOCK: Starting Group Name & Nickname Lock System...'' s) = (Inr (), s1)"
    using assms(2,3) by (simp add: s1_def setup_browser_def prim_defs)
  have logs1: "length (logs (fst s1)) = length (logs (fst s)) + 3"
    using assms(2,3) by (simp add: s1_def setup_browser_def prim_defs)
  have hist1: "history s1 = history s @ [Strftime, Strftime, Chrome, Set_window_size, Strftime]"
    using assms(2,3) by (simp add: s1_def setup_browser_def prim_defs)
  define s2 where "s2 = snd (void_call e (Get ''https://www.facebook.com/'') s1)"
  have nav: "void_call e (Get ''https://www.facebook.com/'') s1 = (Inr (), s2)"
    using assms(4) hist1 by (simp add: s2_def void_call_def record_call_def history_def Let_def)
  have logs2: "logs (fst s2) = logs (fst s1)"
    by (simp add: s2_def void_call_def record_call_def Let_def)
  define s3 where "s3 = log_message e ''LOCK: Group ID required!''
                             (add_cookies e lconf (sleep 8000 s2))"
  have result: "s' = quit_browser e ''LOCK: Browser closed''
                       (store_lock_enabled user_id False (set_running False s3))"
    using assms(1,5) up nav
    by (auto simp: monitor_and_lock_group_def monitor_session_def s3_def Let_def)
  obtain closed where "logs (fst s') = logs (fst s3) @ closed"
    using logs_quit_browser [of e "''LOCK: Browser closed''"
        "store_lock_enabled user_id False (set_running False s3)"] result
    by auto
  moreover have "logs (fst s3) = logs (fst s1)
      @ [''['' @ strftime e (history (add_cookies e lconf (sleep 8000 s2)) @ [Strftime])
           @ ''] LOCK: Group ID required!'']"
    by (simp add: s3_def logs2)
  ultimately have "logs (fst s') ! (length (logs (fst s)) + 3)
      = ''['' @ strftime e (history (add_cookies e lconf (sleep 8000 s2)) @ [Strftime])
           @ ''] LOCK: Group ID required!''"
    using logs1 by (simp add: nth_append)
  then show ?thesis by blast
qed

text \<open>
  C10, as stated, fails when the browser cannot be started: the function returns from
  the handler of line 473 before the check of the chat id, and the log has the browser
  error but no entry \<open>Group ID required!\<close>.
\<close>

theorem group_id_required_needs_browser:
  "map_option (\<lambda>s'. logs (fst s'))
     (monitor_and_lock_group 0 env_all_fail lock_config_no_chat ''u'' lock_state_running)
   = Some [''[12:00:00] LOCK: Starting Group Name & Nickname Lock System...'',
           ''[12:00:00] Setting up Chrome browser...'',
           ''[12:00:00] Browser setup failed: WebDriverException'',
           ''[12:00:00] LOCK: Browser error: WebDriverException'']"
  by (simp add: monitor_and_lock_group_def setup_browser_def env_all_fail_def
      lock_state_running_def prim_defs)

text \<open>
  C10, amended. With an empty or missing chat id, \<open>monitor_and_lock_group\<close> returns
  without a single pass of the polling loop (it returns even when the loop is allowed no
  pass at all), with the running flag cleared and the persisted lock-enabled flag of the
  user cleared; and when the browser has started and the first page load has not raised,
  the entry \<open>Group ID required!\<close> is appended to the log, as the fourth entry of the run.
\<close>

theorem monitor_without_group_id:
  "chat_id lconf = None \<or> chat_id lconf = Some [] \<longrightarrow>
     (\<exists>s'. monitor_and_lock_group fuel e lconf user_id s = Some s'
        \<and> monitor_and_lock_group 0 e lconf user_id s = Some s'
        \<and> quiet_step s s'
        \<and> \<not> running (fst s')
        \<and> \<not> get_lock_enabled (lock_enabled (snd s')) user_id
        \<and> (void_result e (history s @ [Strftime, Strftime, Chrome]) = None
           \<and> void_result e (history s @ [Strftime, Strftime, Chrome, Set_window_size]) = None
           \<and> void_result e (history s @ [Strftime, Strftime, Chrome, Set_window_size, Strftime,
                                          Get ''https://www.facebook.com/'']) = None
           \<longrightarrow> (\<exists>ts. logs (fst s') ! (length (logs (fst s)) + 3)
                       = ''['' @ ts @ ''] LOCK: Group ID required!'')))"
proof
  assume no_chat: "chat_id lconf = None \<or> chat_id lconf = Some []"
  from monitor_without_chat_id [OF no_chat, of fuel e user_id s]
  obtain s' where s': "monitor_and_lock_group fuel e lconf user_id s = Some s'"
      "monitor_and_lock_group 0 e lconf user_id s = Some s'" "quiet_step s s'"
      "\<not> running (fst s')" "\<not> get_lock_enabled (lock_enabled (snd s')) user_id"
    by blast
  from monitor_group_id_required [OF no_chat _ _ _ s'(1)]
  have "void_result e (history s @ [Strftime, Strftime, Chrome]) = None
           \<and> void_result e (history s @ [Strftime, Strftime, Chrome, Set_window_size]) = None
           \<and> void_result e (history s @ [Strftime, Strftime, Chrome, Set_window_size, Strftime,
                                          Get ''https://www.facebook.com/'']) = None
           \<longrightarrow> (\<exists>ts. logs (fst s') ! (length (logs (fst s)) + 3)
                       = ''['' @ ts @ ''] LOCK: Group ID required!'')"
    by blast
  with s' show "\<exists>s'. monitor_and_lock_group fuel e lconf user_id s = Some s'
        \<and> monitor_and_lock_group 0 e lconf user_id s = Some s'
        \<and> quiet_step s s'
        \<and> \<not> running (fst s')
        \<and> \<not> get_lock_enabled (lock_enabled (snd s')) user_id
        \<and> (void_result e (history s @ [Strftime, Strftime, Chrome]) = None
           \<and> void_result e (history s @ [Strftime, Strftime, Chrome, Set_window_size]) = None
           \<and> void_result e (history s @ [Strftime, Strftime, Chrome, Set_window_size, Strftime,
                                          Get ''https://www.facebook.com/'']) = None
           \<longrightarrow> (\<exists>ts. logs (fst s') ! (length (logs (fst s)) + 3)
                       = ''['' @ ts @ ''] LOCK: Group ID required!''))"
    by blast
qed

theorem monitor_without_group_id_witness:
  "chat_id lock_config_no_chat = Some []
   \<and> (\<exists>s'. monitor_and_lock_group 7 env_no_controls lock_config_no_chat ''u''
               lock_state_running = Some s'
          \<and> monitor_and_lock_group 0 env_no_controls lock_config_no_chat ''u''
               lock_state_running = Some s'
          \<and> quiet_step lock_state_running s'
          \<and> \<not> running (fst s')
          \<and> \<not> get_lock_enabled (lock_enabled (snd s')) ''u''
          \<and> (\<exists>ts. logs (fst s') ! 3 = ''['' @ ts @ ''] LOCK: Group ID required!''))"
proof -
  have no_chat: "chat_id lock_config_no_chat = Some []"
    by (simp add: lock_config_no_chat_def)
  have up: "void_result env_no_controls h = None" for h
    by (simp add: env_no_controls_def)
  have start: "length (logs (fst lock_state_running)) + 3 = 3"
    by (simp add: lock_state_running_def)
  from no_chat
    monitor_without_group_id [where lconf = lock_config_no_chat and e = env_no_controls
      and fuel = 7 and user_id = "''u''" and s = lock_state_running]
  obtain s' where s': "monitor_and_lock_group 7 env_no_controls lock_config_no_chat ''u''
               lock_state_running = Some s'"
      "monitor_and_lock_group 0 env_no_controls lock_config_no_chat ''u''
               lock_state_running = Some s'"
      "quiet_step lock_state_running s'" "\<not> running (fst s')"
      "\<not> get_lock_enabled (lock_enabled (snd s')) ''u''"
      "void_result env_no_controls (history lock_state_running @ [Strftime, Strftime, Chrome])
          = None
       \<and> void_result env_no_controls
            (history lock_state_running @ [Strftime, Strftime, Chrome, Set_window_size]) = None
       \<and> void_result env_no_controls
            (history lock_state_running @ [Strftime, Strftime, Chrome, Set_window_size, Strftime,
                                           Get ''https://www.facebook.com/'']) = None
       \<longrightarrow> (\<exists>ts. logs (fst s') ! (length (logs (fst lock_state_running)) + 3)
                   = ''['' @ ts @ ''] LOCK: Group ID required!'')"
    by blast
  from s'(6) up have "\<exists>ts. logs (fst s') ! (length (logs (fst lock_state_running)) + 3)
                   = ''['' @ ts @ ''] LOCK: Group ID required!''"
    by blast
  then have "\<exists>ts. logs (fst s') ! 3 = ''['' @ ts @ ''] LOCK: Group ID required!''"
    by (simp only: start)
  with no_chat s'(1-5) show ?thesis
    by blast
qed

section \<open>The dispatcher loop\<close>

lemma sleep_delay_raises:
  "d < 0 \<Longrightarrow> sleep_delay e d s = (Inl ''sleep length must be non-negative'', s)"
  "9223372036 < d \<Longrightarrow>
     sleep_delay e d s = (Inl ''timestamp too large to convert to C _PyTime_t'', s)"
  by (simp_all add: sleep_delay_def)

lemma send_loop_delay_too_large:
  "send_loop 1 env_no_controls config_sample ''AUTO-1'' 0 10000000000 [''one''] 0
     automation_running
   = Some (1, log_message env_no_controls
                ''AUTO-1: Error sending message: timestamp too large to convert to C _PyTime_t''
                (snd (send_attempt env_no_controls ''AUTO-1'' 0 ''one'' 0
                        (snd (next_message [''one''] (check_running env_no_controls
                                                       automation_running))))))"
  by (simp add: sleep_delay_def check_running_def automation_running_def env_no_controls_def
      next_message_def get_next_message_def message_to_send_def config_sample_def
      send_attempt_def prim_defs AutomationState_init_def)

lemma running_check_running_False:
  "\<not> running (fst s) \<Longrightarrow> \<not> running (fst (check_running e s))"
  by (simp add: check_running_def prim_defs)



section \<open>The element locator\<close>

lemma try_element_page:
  "(fst (try_element (page_env p) process_id selector el s) = Inr True) = accepted p (selector, el)"
  by (auto simp: try_element_def element_visible_def is_displayed_def element_size_def
      page_env_def prim_defs visible_def is_editable_def has_keyword_def fallback_pattern_def
      accepted_def
      split: sum.splits jsval.splits option.splits prod.splits if_splits)

lemma try_elements_page:
  "fst (try_elements (page_env p) process_id selector els s)
     = List.find (\<lambda>el. accepted p (selector, el)) els"
proof (induction els arbitrary: s)
  case Nil
  then show ?case by simp
next
  case (Cons el els)
  obtain r s' where r: "try_element (page_env p) process_id selector el s = (r, s')"
    by (cases "try_element (page_env p) process_id selector el s")
  with try_element_page [of p process_id selector el s]
  have acc: "(r = Inr True) = accepted p (selector, el)" by simp
  show ?case
  proof (cases r)
    case (Inl err)
    with acc r Cons.IH [of s'] show ?thesis by simp
  next
    case (Inr b)
    with acc r Cons.IH [of s'] show ?thesis by (cases b) simp_all
  qed
qed

lemma find_append:
  "List.find P (xs @ ys) = (case List.find P xs of Some x \<Rightarrow> Some x | None \<Rightarrow> List.find P ys)"
  by (induction xs) simp_all

lemma find_map_Pair:
  "List.find P (map (Pair a) xs) = map_option (Pair a) (List.find (\<lambda>x. P (a, x)) xs)"
  by (induction xs) simp_all

lemma try_selectors_page:
  "fst (try_selectors (page_env p) process_id selectors s)
     = map_option snd (List.find (accepted p) (concat (map (candidates_of p) selectors)))"
proof (induction selectors arbitrary: s)
  case Nil
  then show ?case by simp
next
  case (Cons selector selectors)
  define s1 where "s1 = record_call (Find_elements selector) s"
  have query: "find_elements (page_env p) selector s = (matches p selector, s1)"
    by (simp add: find_elements_def s1_def page_env_def prim_defs)
  show ?case
  proof (cases "matches p selector")
    case (Inl err)
    with query Cons.IH [of s1] show ?thesis
      by (simp add: candidates_of_def)
  next
    case (Inr els)
    obtain found s2 where t: "try_elements (page_env p) process_id selector els s1 = (found, s2)"
      by (cases "try_elements (page_env p) process_id selector els s1")
    with try_elements_page [of p process_id selector els s1]
    have found: "found = List.find (\<lambda>el. accepted p (selector, el)) els" by simp
    show ?thesis
    proof (cases found)
      case None
      with found have "List.find (\<lambda>el. accepted p (selector, el)) els = None" by simp
      with query Inr t None Cons.IH [of s2] show ?thesis
        by (simp add: candidates_of_def find_append find_map_Pair)
    next
      case (Some el)
      with found have "List.find (\<lambda>el. accepted p (selector, el)) els = Some el" by simp
      with query Inr t Some show ?thesis
        by (simp add: candidates_of_def find_append find_map_Pair)
    qed
  qed
qed

lemma find_message_input_page:
  "fst (find_message_input (page_env p) process_id s)
     = map_option snd (List.find (accepted p) (candidates p))"
proof -
  define s0 where "s0 = log_page_info (page_env p) process_id
               (scroll_page (page_env p)
                 (sleep 4000
                   (log_message (page_env p) (process_id @ '': Finding message input...'') s)))"
  obtain found s1 where t:
    "try_selectors (page_env p) process_id message_input_selectors s0 = (found, s1)"
    by (cases "try_selectors (page_env p) process_id message_input_selectors s0")
  with try_selectors_page [of p process_id message_input_selectors s0]
  have found: "map_option snd (List.find (accepted p) (candidates p)) = found"
    by (simp add: candidates_def)
  from t have "fst (find_message_input (page_env p) process_id s) = found"
    by (cases found) (simp_all add: find_message_input_def s0_def [symmetric])
  with found show ?thesis by simp
qed

lemma selector_queries_append:
  "selector_queries (xs @ ys) = selector_queries xs @ selector_queries ys"
  by (induction xs rule: selector_queries.induct) simp_all

lemma queries_log_message [simp]:
  "selector_queries (history (log_message e msg s)) = selector_queries (history s)"
  by (simp add: prim_defs selector_queries_append)

lemma queries_sleep [simp]:
  "selector_queries (history (sleep ms s)) = selector_queries (history s)"
  by (simp add: prim_defs selector_queries_append)

lemma queries_scroll_page [simp]:
  "selector_queries (history (scroll_page e s)) = selector_queries (history s)"
  by (simp add: scroll_page_def prim_defs selector_queries_append split: sum.splits)

lemma queries_log_page_info [simp]:
  "selector_queries (history (log_page_info e process_id s)) = selector_queries (history s)"
  by (simp add: log_page_info_def prim_defs selector_queries_append split: sum.splits)

lemma queries_log_page_source [simp]:
  "selector_queries (history (log_page_source e process_id s)) = selector_queries (history s)"
  by (simp add: log_page_source_def prim_defs selector_queries_append split: sum.splits)

lemma queries_try_element [simp]:
  "selector_queries (history (snd (try_element e process_id selector el s)))
     = selector_queries (history s)"
  by (simp add: try_element_def element_visible_def is_displayed_def element_size_def
      prim_defs selector_queries_append
      split: sum.splits jsval.splits option.splits prod.splits)

lemma queries_try_elements [simp]:
  "selector_queries (history (snd (try_elements e process_id selector els s)))
     = selector_queries (history s)"
proof (induction els arbitrary: s)
  case Nil
  then show ?case by simp
next
  case (Cons el els)
  obtain r s' where r: "try_element e process_id selector el s = (r, s')"
    by (cases "try_element e process_id selector el s")
  with queries_try_element [of e process_id selector el s]
  have q: "selector_queries (history s') = selector_queries (history s)" by simp
  show ?case
  proof (cases r)
    case (Inl err)
    with r q Cons.IH [of s'] show ?thesis by simp
  next
    case (Inr b)
    with r q Cons.IH [of s'] show ?thesis by (cases b) simp_all
  qed
qed

lemma queries_try_selectors:
  "fst (try_selectors e process_id selectors s) = None \<Longrightarrow>
     selector_queries (history (snd (try_selectors e process_id selectors s)))
       = selector_queries (history s) @ selectors"
proof (induction selectors arbitrary: s)
  case Nil
  then show ?case by simp
next
  case (Cons selector selectors)
  define s1 where "s1 = record_call (Find_elements selector) s"
  have q1: "selector_queries (history s1) = selector_queries (history s) @ [selector]"
    by (simp add: s1_def prim_defs selector_queries_append)
  have query: "find_elements e selector s = (elements_result e (history s1), s1)"
    by (simp add: find_elements_def s1_def prim_defs)
  show ?case
  proof (cases "elements_result e (history s1)")
    case (Inl err)
    with query Cons.prems have "fst (try_selectors e process_id selectors s1) = None"
      by simp
    from Cons.IH [OF this] query Inl q1 show ?thesis by simp
  next
    case (Inr els)
    obtain found s2 where t: "try_elements e process_id selector els s1 = (found, s2)"
      by (cases "try_elements e process_id selector els s1")
    with queries_try_elements [of e process_id selector els s1]
    have q2: "selector_queries (history s2) = selector_queries (history s1)" by simp
    from query Inr t Cons.prems have none: "found = None"
      by (cases found) simp_all
    with query Inr t Cons.prems have "fst (try_selectors e process_id selectors s2) = None"
      by simp
    from Cons.IH [OF this] query Inr t none q1 q2 show ?thesis by simp
  qed
qed

lemma queries_find_message_input:
  assumes "fst (find_message_input e process_id s) = None"
  shows "selector_queries (history (snd (find_message_input e process_id s)))
       = selector_queries (history s) @ message_input_selectors"
proof -
  define s0 where "s0 = log_page_info e process_id
               (scroll_page e
                 (sleep 4000 (log_message e (process_id @ '': Finding message input...'') s)))"
  obtain found s1 where t: "try_selectors e process_id message_input_selectors s0 = (found, s1)"
    by (cases "try_selectors e process_id message_input_selectors s0")
  with assms have none: "found = None"
    by (cases found) (simp_all add: find_message_input_def s0_def [symmetric])
  with t queries_try_selectors [of e process_id message_input_selectors s0]
  have "selector_queries (history s1) = selector_queries (history s0) @ message_input_selectors"
    by simp
  moreover have "selector_queries (history s0) = selector_queries (history s)"
    by (simp add: s0_def)
  ultimately show ?thesis
    using t none by (simp add: find_message_input_def s0_def [symmetric])
qed


lemma candidates_page_blocked:
  "candidates page_blocked = [(''textarea'', 1), (''textarea'', 2)]"
  by (simp add: candidates_def candidates_of_def message_input_selectors_def page_blocked_def)

lemma accepted_spec_acceptable:
  "accepted p c \<Longrightarrow> spec_acceptable p c"
  by (auto simp: accepted_def spec_acceptable_def)

lemma spec_acceptable_accepted:
  "click_result p (snd c) = None \<Longrightarrow> label_text p (snd c) = Inr (JStr t) \<Longrightarrow>
     accepted p c = spec_acceptable p c"
  by (auto simp: accepted_def spec_acceptable_def)

lemma find_cong_set:
  "(\<And>x. x \<in> set xs \<Longrightarrow> P x = Q x) \<Longrightarrow> List.find P xs = List.find Q xs"
  by (induction xs) simp_all

lemma lower_Message: "lower ''Message'' = ''message''"
  by code_simp

text \<open>
  C8, as stated, fails: an element that is visible, editable and carries a keyword, but
  whose click raises (another element covers it), is passed over, and a later element
  is returned although the earlier one meets all the conditions the claim lists.
\<close>

theorem blocked_element_skipped:
  "fst (find_message_input (page_env page_blocked) ''AUTO-1'' automation_running) = Some 2
   \<and> map_option snd (List.find (spec_acceptable page_blocked) (candidates page_blocked))
       = Some 1"
proof -
  have first: "\<not> accepted page_blocked (''textarea'', 1)"
    by (simp add: accepted_def page_blocked_def)
  have second: "accepted page_blocked (''textarea'', 2)"
    by (simp add: accepted_def visible_def is_editable_def fallback_pattern_def
        page_blocked_def)
  have claimed: "spec_acceptable page_blocked (''textarea'', 1)"
    by (simp add: spec_acceptable_def visible_def is_editable_def fallback_pattern_def
        page_blocked_def)
  from first second
  have "fst (find_message_input (page_env page_blocked) ''AUTO-1'' automation_running) = Some 2"
    by (simp add: find_message_input_page candidates_page_blocked)
  moreover from claimed
  have "map_option snd (List.find (spec_acceptable page_blocked) (candidates page_blocked))
       = Some 1"
    by (simp add: candidates_page_blocked)
  ultimately show ?thesis by blast
qed

text \<open>
  C8, amended. On a page at rest the locator tries the patterns in the declared order,
  the matches of each in document order, and returns the first element that is visible
  (displayed, width and height positive), whose click does not raise, that is editable,
  and whose label script returns a string that either contains one of the keywords or
  belongs to an element matched by one of the two patterns accepted unconditionally, the
  tenth and eleventh of the twelve; an element for which a probe raises is passed over.
  Every element returned meets the conditions of the claim, and where no click raises
  and every label is a string, the element returned is the first that meets them. When
  nothing is returned, every pattern has been queried exactly once, in the declared order
  (this part for any outside world).
\<close>

theorem find_message_input_first_accepted:
  "fst (find_message_input (page_env p) process_id s)
     = map_option snd (List.find (accepted p) (candidates p))
   \<and> (\<forall>c. accepted p c \<longrightarrow> spec_acceptable p c)
   \<and> ((\<forall>c \<in> set (candidates p).
          click_result p (snd c) = None \<and> (\<exists>t. label_text p (snd c) = Inr (JStr t)))
      \<longrightarrow> fst (find_message_input (page_env p) process_id s)
            = map_option snd (List.find (spec_acceptable p) (candidates p)))
   \<and> fallback_pattern selector
       = (selector = message_input_selectors ! 9 \<or> selector = message_input_selectors ! 10)
   \<and> length message_input_selectors = 12
   \<and> (fst (find_message_input e process_id s) = None
      \<longrightarrow> selector_queries (history (snd (find_message_input e process_id s)))
            = selector_queries (history s) @ message_input_selectors)"
proof -
  have same: "fst (find_message_input (page_env p) process_id s)
            = map_option snd (List.find (spec_acceptable p) (candidates p))"
    if "\<forall>c \<in> set (candidates p).
          click_result p (snd c) = None \<and> (\<exists>t. label_text p (snd c) = Inr (JStr t))"
  proof -
    from that have "List.find (accepted p) (candidates p)
        = List.find (spec_acceptable p) (candidates p)"
      by (intro find_cong_set) (auto simp: spec_acceptable_accepted)
    then show ?thesis by (simp add: find_message_input_page)
  qed
  have patterns: "fallback_pattern selector
       = (selector = message_input_selectors ! 9 \<or> selector = message_input_selectors ! 10)"
    "length message_input_selectors = 12"
    by (simp_all add: fallback_pattern_def message_input_selectors_def)
  from same patterns show ?thesis
    using find_message_input_page [of p process_id s] accepted_spec_acceptable [of p]
      queries_find_message_input [of e process_id s]
    by blast
qed

theorem find_message_input_first_accepted_witness:
  \<open>candidates page_sample
     = [(''[role="textbox"][contenteditable="true"]'', 3), (''input[type="text"]'', 4)]
   \<and> fst (find_message_input (page_env page_sample) ''AUTO-1'' automation_running) = Some 3
   \<and> spec_acceptable page_sample (''[role="textbox"][contenteditable="true"]'', 3)
   \<and> map_option snd (List.find (spec_acceptable page_sample) (candidates page_sample)) = Some 3
   \<and> fst (find_message_input (page_env page_empty) ''AUTO-1'' automation_running) = None
   \<and> selector_queries
        (history (snd (find_message_input (page_env page_empty) ''AUTO-1'' automation_running)))
       = message_input_selectors\<close>
proof -
  have cands: \<open>candidates page_sample
     = [(''[role="textbox"][contenteditable="true"]'', 3), (''input[type="text"]'', 4)]\<close>
    by (simp add: candidates_def candidates_of_def message_input_selectors_def page_sample_def)
  have none: "candidates page_empty = []"
    by (simp add: candidates_def candidates_of_def message_input_selectors_def page_empty_def)
  have labelled: "has_keyword page_sample 3"
    by (simp add: has_keyword_def page_sample_def lower_Message message_keywords_def)
  then have first: \<open>accepted page_sample (''[role="textbox"][contenteditable="true"]'', 3)\<close>
    by (simp add: accepted_def visible_def is_editable_def page_sample_def)
  have probes: "\<forall>c \<in> set (candidates page_sample).
          click_result page_sample (snd c) = None
          \<and> (\<exists>t. label_text page_sample (snd c) = Inr (JStr t))"
    unfolding cands by (simp add: page_sample_def)
  have start: "selector_queries (history automation_running) = []"
    by (simp add: history_def automation_running_def world_init_def)
  note at_sample = find_message_input_first_accepted [where p = page_sample
      and process_id = "''AUTO-1''" and s = automation_running and e = "page_env page_empty"]
  note at_empty = find_message_input_first_accepted [where p = page_empty
      and process_id = "''AUTO-1''" and s = automation_running and e = "page_env page_empty"]
  from at_sample
  have "fst (find_message_input (page_env page_sample) ''AUTO-1'' automation_running)
     = map_option snd (List.find (accepted page_sample) (candidates page_sample))"
    by (rule conjunct1)
  with first have found: "fst (find_message_input (page_env page_sample) ''AUTO-1''
      automation_running) = Some 3"
    by (simp add: cands)
  from at_sample probes
  have "fst (find_message_input (page_env page_sample) ''AUTO-1'' automation_running)
            = map_option snd (List.find (spec_acceptable page_sample) (candidates page_sample))"
    by blast
  with found have spec: "map_option snd (List.find (spec_acceptable page_sample)
      (candidates page_sample)) = Some 3"
    by simp
  from at_empty
  have "fst (find_message_input (page_env page_empty) ''AUTO-1'' automation_running)
     = map_option snd (List.find (accepted page_empty) (candidates page_empty))"
    by (rule conjunct1)
  then have not_found: "fst (find_message_input (page_env page_empty) ''AUTO-1''
      automation_running) = None"
    by (simp add: none)
  with at_empty
  have "selector_queries
        (history (snd (find_message_input (page_env page_empty) ''AUTO-1'' automation_running)))
       = selector_queries (history automation_running) @ message_input_selectors"
    by blast
  with start have order: "selector_queries
        (history (snd (find_message_input (page_env page_empty) ''AUTO-1'' automation_running)))
       = message_input_selectors"
    by simp
  from at_sample first
  have meets: \<open>spec_acceptable page_sample (''[role="textbox"][contenteditable="true"]'', 3)\<close>
    by blast
  from cands found meets spec not_found order show ?thesis
    by blast
qed


section \<open>The end of a background thread\<close>

text \<open>
  Whenever \<open>monitor_and_lock_group\<close> or \<open>send_messages\<close> returns, the running flag of
  its state object is cleared, and the watchdog has cleared \<open>lock_enabled\<close> as well:
  what \<open>loop_finished\<close> records of a thread on its way out.
\<close>

lemma monitor_session_cleared:
  "monitor_session fuel e lconf user_id s = Some (Inr u, s') \<Longrightarrow>
     \<not> running (fst s') \<and> \<not> get_lock_enabled (lock_enabled (snd s')) user_id"
  by (auto simp: monitor_session_def Let_def split: prod.splits sum.splits option.splits if_splits)

lemma monitor_and_lock_group_cleared:
  assumes "monitor_and_lock_group fuel e lconf user_id s = Some s'"
  shows "\<not> running (fst s') \<and> \<not> get_lock_enabled (lock_enabled (snd s')) user_id"
proof -
  obtain r s1 where up: "setup_browser e
      (log_message e ''LOCK: Starting Group Name & Nickname Lock System...'' s) = (r, s1)"
    by (cases "setup_browser e
      (log_message e ''LOCK: Starting Group Name & Nickname Lock System...'' s)")
  show ?thesis
  proof (cases r)
    case (Inl err)
    with assms up show ?thesis
      by (auto simp: monitor_and_lock_group_def)
  next
    case (Inr u)
    with assms up obtain m s2 where m: "monitor_session fuel e lconf user_id s1 = Some (m, s2)"
      by (auto simp: monitor_and_lock_group_def split: option.splits)
    show ?thesis
    proof (cases m)
      case (Inl err)
      with assms up \<open>r = Inr u\<close> m show ?thesis
        by (auto simp: monitor_and_lock_group_def)
    next
      case (Inr v)
      with assms up \<open>r = Inr u\<close> m monitor_session_cleared [of fuel e lconf user_id s1 v s2]
      show ?thesis
        by (auto simp: monitor_and_lock_group_def)
    qed
  qed
qed

lemma running_set_automation_running [simp]:
  "running (fst (set_automation_running username b s)) = running (fst s)"
  by (simp add: set_automation_running_def)

lemma send_messages_cleared:
  assumes "send_messages fuel e conf user_id process_id s = Some (sent, s')"
  shows "\<not> running (fst s')"
proof -
  obtain r s1 where up: "setup_browser e
      (log_message e (process_id @ '': Starting automation...'') s) = (r, s1)"
    by (cases "setup_browser e (log_message e (process_id @ '': Starting automation...'') s)")
  show ?thesis
  proof (cases r)
    case (Inl err)
    with assms up show ?thesis
      by (auto simp: send_messages_def)
  next
    case (Inr u)
    obtain c s2 where c: "open_chat e conf process_id s1 = (c, s2)"
      by (cases "open_chat e conf process_id s1")
    show ?thesis
    proof (cases c)
      case (Inl err)
      with assms up \<open>r = Inr u\<close> c show ?thesis
        by (auto simp: send_messages_def)
    next
      case (Inr found)
      show ?thesis
      proof (cases found)
        case None
        with assms up \<open>r = Inr u\<close> c Inr show ?thesis
          by (auto simp: send_messages_def)
      next
        case (Some message_input)
        define d where "d = (case delay conf of None \<Rightarrow> 5 | Some d \<Rightarrow> d)"
        from assms up \<open>r = Inr u\<close> c Inr Some
        obtain s3 where s3: "dispatch fuel e conf user_id process_id message_input d
              (messages_list conf) s2 = Some (sent, s3)"
            "s' = quit_browser e (process_id @ '': Browser closed'') s3"
          by (auto simp: send_messages_def d_def split: option.splits)
        from s3(1) obtain s4 where "s3 = automation_stopped e user_id process_id sent s4"
          by (auto simp: dispatch_def split: option.splits)
        then have "\<not> running (fst s3)"
          by (simp add: automation_stopped_def)
        with s3(2) show ?thesis by simp
      qed
    qed
  qed
qed

end
